theory Spec2Isabelle
  imports Main "HOL-Library.AList" "HOL-Library.Char_ord" "HOL-Library.List_Lexorder"
    "HOL-Library.Multiset"
begin

section \<open>The CONS3RT inventory plugin: values, errors and effects\<close>

text \<open>
  The development embeds \<^verbatim>\<open>plugins/inventory/cons3rt.py\<close>: the \<^verbatim>\<open>Session\<close> class (the
  retrying HTTP GET, the response parser and the three API operations) and the
  \<^verbatim>\<open>InventoryModule\<close> methods that fetch, sort and register hosts.

  Python values are the values a JSON document decodes to. Dictionaries are association
  lists in insertion order with distinct keys, which is what \<^verbatim>\<open>dict\<close> keeps. JSON numbers
  with a fraction or an exponent (Python floats) are not part of this value type.
  A Python \<^verbatim>\<open>str\<close> is represented by its UTF-8 encoding, so that concatenation of texts
  is concatenation of the representations and the code-point order of two texts is the
  lexicographic order of their bytes.
\<close>

datatype pyval =
    PyNone
  | PyBool bool
  | PyInt int
  | PyStr string
  | PyList "pyval list"
  | PyDict "(string \<times> pyval) list"

text \<open>
  The exceptions that the code raises or lets through. \<open>Propagated\<close> is an exception
  that \<^verbatim>\<open>http_get\<close> does not catch, with its text: one raised by the request that is
  outside the hierarchy of the HTTP library, or one raised while the channel of an
  attempt is set up.
\<close>

datatype error =
    Cons3rtClientError string
  | KeyError string
  | TypeError
  | AttributeError
  | UnicodeDecodeError
  | JSONDecodeError
  | Propagated string

subsection \<open>Text of integers\<close>

definition digit_char :: "nat \<Rightarrow> char" where
  "digit_char n = ''0123456789'' ! (n mod 10)"

fun str_nat :: "nat \<Rightarrow> string" where
  "str_nat n = (if n < 10 then [digit_char n] else str_nat (n div 10) @ [digit_char n])"

declare str_nat.simps [simp del]

definition str_int :: "int \<Rightarrow> string" where
  \<comment> \<open>Python's \<^verbatim>\<open>str(n)\<close> for an int.\<close>
  "str_int i = (if i < 0 then CHR ''-'' # str_nat (nat (- i)) else str_nat (nat i))"

subsection \<open>Responses, exceptions of the HTTP library, and the server\<close>

text \<open>
  \<^verbatim>\<open>response.content\<close> is a byte string, or \<^verbatim>\<open>None\<close>; \<^verbatim>\<open>parse_response\<close> also provides for
  a content that is already text. The only use the code makes of \<^verbatim>\<open>response.headers\<close> is to
  format it into a message, so the record holds the text that formatting yields.
\<close>

datatype content = CBytes string | CText string | CNone

record response =
  status_code :: int
  headers :: string
  content :: content

text \<open>
  The exception classes that \<^verbatim>\<open>http_get\<close> names are those of the \<^verbatim>\<open>requests\<close> library, where
  \<^verbatim>\<open>SSLError\<close> derives from \<^verbatim>\<open>RequestException\<close>. \<open>NonRequestsError\<close> stands for any
  exception outside that hierarchy. An exception carries its class and its \<^verbatim>\<open>str(exc)\<close>.
\<close>

datatype exc_class = RequestException | SSLError | NonRequestsError

fun isinstance_exc :: "exc_class \<Rightarrow> exc_class \<Rightarrow> bool" where
  "isinstance_exc SSLError RequestException = True"
| "isinstance_exc c d = (c = d)"

text \<open>
  What one attempt of \<^verbatim>\<open>http_get\<close> meets. Before the request, the attempt sets up its
  channel: a fresh \<^verbatim>\<open>requests.Session\<close>, a \<^verbatim>\<open>Pkcs12Adapter\<close> made from the certificate file
  and the password of the credentials and mounted for the base URL, and the token header.
  That code stands inside the loop and outside the \<^verbatim>\<open>try\<close>, so an exception it raises (the
  file cannot be read, the password is wrong, a credential is missing) leaves \<^verbatim>\<open>http_get\<close>
  at once: \<open>SetupRaises\<close>, with the text of the exception. Otherwise \<^verbatim>\<open>s.get(url)\<close> returns a
  response or raises.
\<close>

datatype outcome = Returns response | Raises exc_class string | SetupRaises string

text \<open>
  The environment (the server, the network, and the file system that holds the
  certificate) decides every attempt: \<open>srv url n\<close> is what attempt number \<open>n\<close> (counted from
  1, as \<^verbatim>\<open>attempt_num\<close> is) of one call of \<^verbatim>\<open>http_get\<close> for \<open>url\<close> meets.
\<close>

type_synonym server = "string \<Rightarrow> int \<Rightarrow> outcome"

datatype event = Get string | Print string | Sleep int | PrintElapsed

record credentials =
  cert_file_path :: string
  cert_password :: string
  cons3rt_token :: string

record session =
  max_retry_attempts :: int
  retry_time_sec :: int
  base :: string
  credentials :: credentials

definition Session :: "string \<Rightarrow> credentials \<Rightarrow> session" where
  \<comment> \<open>\<^verbatim>\<open>Session.__init__\<close>\<close>
  "Session b c = \<lparr>max_retry_attempts = 10, retry_time_sec = 5, base = b, credentials = c\<rparr>"

section \<open>Session.validate\_target and Session.http\_get\<close>

definition validate_target :: "pyval \<Rightarrow> error + unit" where
  "validate_target target =
     (if target = PyNone \<or> \<not> (case target of PyStr _ \<Rightarrow> True | _ \<Rightarrow> False)
      then Inl (Cons3rtClientError ''Invalid target arg provided'')
      else Inr ())"

definition request_exception_msg :: "int \<Rightarrow> string \<Rightarrow> string" where
  "request_exception_msg n e = ''RequestException on GET attempt #'' @ str_int n @ ''\<newline>'' @ e"

definition ssl_error_msg :: "int \<Rightarrow> string \<Rightarrow> string" where
  "ssl_error_msg n e = ''SSLError on GET attempt #'' @ str_int n @ ''\<newline>'' @ e"

text \<open>
  The \<^verbatim>\<open>while True\<close> loop of \<^verbatim>\<open>http_get\<close>, with its variables as arguments and the effects
  (GET requests, printed lines, sleeps) appended to a trace. An exception that neither
  \<^verbatim>\<open>except\<close> clause catches leaves the loop, and so does an exception raised while the
  channel of the attempt is set up, before any request is sent. A set-up that succeeds
  leaves nothing in the trace.
\<close>

function http_get_loop ::
  "session \<Rightarrow> (int \<Rightarrow> outcome) \<Rightarrow> string \<Rightarrow> int \<Rightarrow> string \<Rightarrow> event list
     \<Rightarrow> (error + response) \<times> event list" where
  "http_get_loop s env url attempt_num err_msg_tally tr =
     (if attempt_num \<ge> max_retry_attempts s then
        (Inl (Cons3rtClientError
           (''Max attempts exceeded: '' @ str_int (max_retry_attempts s) @ ''\<newline>'' @ err_msg_tally)), tr)
      else
        (case env attempt_num of
           SetupRaises e \<Rightarrow> (Inl (Propagated e), tr)
         | Returns response \<Rightarrow> (Inr response, tr @ [Get url])
         | Raises c e \<Rightarrow>
             if isinstance_exc c RequestException then
               (let err_msg = [] @ request_exception_msg attempt_num e in
                http_get_loop s env url (attempt_num + 1) (err_msg_tally @ err_msg @ ''\<newline>'')
                  (tr @ [Get url, Print err_msg, Sleep (retry_time_sec s)]))
             else if isinstance_exc c SSLError then
               (let err_msg = [] @ ssl_error_msg attempt_num e in
                http_get_loop s env url (attempt_num + 1) (err_msg_tally @ err_msg @ ''\<newline>'')
                  (tr @ [Get url, Print err_msg, Sleep (retry_time_sec s)]))
             else (Inl (Propagated e), tr @ [Get url])))"
  by pat_completeness auto
termination
  by (relation "measure (\<lambda>(s, env, url, n, tally, tr). nat (max_retry_attempts s - n))") auto

declare http_get_loop.simps [simp del]

text \<open>
  \<^verbatim>\<open>http_get\<close> validates the target, builds the URL and enters the loop with
  \<open>attempt_num = 1\<close> and an empty tally. The last branch is never taken: a target that is
  not a text has been rejected by the validation.
\<close>

definition http_get :: "session \<Rightarrow> server \<Rightarrow> pyval \<Rightarrow> (error + response) \<times> event list" where
  "http_get s srv target =
     (case validate_target target of
        Inl e \<Rightarrow> (Inl e, [])
      | Inr _ \<Rightarrow>
          (case target of
             PyStr t \<Rightarrow> (let url = base s @ t in http_get_loop s (srv url) url 1 [] [])
           | _ \<Rightarrow> (Inl TypeError, [])))"

subsection \<open>Vocabulary for the claims about the retry loop\<close>

text \<open>
  An attempt fails with a network error when its request raises an exception that the
  first \<^verbatim>\<open>except\<close> clause catches. An exception of any other class is not caught, and
  neither is an exception of the set-up, whatever its class. \<open>exc_text\<close> is the text of
  the exception an attempt raises.
\<close>

fun network_error :: "outcome \<Rightarrow> bool" where
  "network_error (Raises c e) = isinstance_exc c RequestException"
| "network_error (Returns r) = False"
| "network_error (SetupRaises e) = False"

fun exc_text :: "outcome \<Rightarrow> string" where
  "exc_text (Raises c e) = e"
| "exc_text (Returns r) = []"
| "exc_text (SetupRaises e) = e"

fun is_Get :: "event \<Rightarrow> bool" where
  "is_Get (Get u) = True"
| "is_Get _ = False"

fun is_Sleep :: "event \<Rightarrow> bool" where
  "is_Sleep (Sleep n) = True"
| "is_Sleep _ = False"

definition count_gets :: "event list \<Rightarrow> nat" where
  "count_gets tr = length (filter is_Get tr)"

definition count_sleeps :: "event list \<Rightarrow> nat" where
  "count_sleeps tr = length (filter is_Sleep tr)"

definition exhausted_msg :: "session \<Rightarrow> string \<Rightarrow> string" where
  "exhausted_msg s tally =
     ''Max attempts exceeded: '' @ str_int (max_retry_attempts s) @ ''\<newline>'' @ tally"

text \<open>
  The tally and the trace that \<open>n\<close> failed attempts numbered \<open>a\<close>, \<open>a + 1\<close>, ... leave
  behind: one message and one newline per attempt; one GET, one printed line and one sleep
  per attempt.
\<close>

fun failure_tally :: "(int \<Rightarrow> outcome) \<Rightarrow> int \<Rightarrow> nat \<Rightarrow> string" where
  "failure_tally env a 0 = []"
| "failure_tally env a (Suc n) =
     request_exception_msg a (exc_text (env a)) @ ''\<newline>'' @ failure_tally env (a + 1) n"

fun failed_trace :: "session \<Rightarrow> (int \<Rightarrow> outcome) \<Rightarrow> string \<Rightarrow> int \<Rightarrow> nat \<Rightarrow> event list" where
  "failed_trace s env url a 0 = []"
| "failed_trace s env url a (Suc n) =
     [Get url, Print (request_exception_msg a (exc_text (env a))), Sleep (retry_time_sec s)]
       @ failed_trace s env url (a + 1) n"

fun is_str :: "pyval \<Rightarrow> bool" where
  "is_str (PyStr s) = True"
| "is_str _ = False"

section \<open>Session.parse\_response\<close>

subsection \<open>Decoding bytes as UTF-8\<close>

text \<open>
  \<^verbatim>\<open>bytes.decode('utf-8')\<close> is strict: it raises \<^verbatim>\<open>UnicodeDecodeError\<close> unless the bytes are
  well-formed UTF-8 (no stray continuation byte, no truncated or overlong sequence, no
  surrogate, nothing above U+10FFFF). As a text is represented by its encoding, decoding
  well-formed bytes returns them unchanged.
\<close>

definition byte :: "char \<Rightarrow> nat" where
  "byte c = of_char c"

definition continuation :: "char \<Rightarrow> bool" where
  "continuation c = (0x80 \<le> byte c \<and> byte c \<le> 0xBF)"

fun utf8_valid :: "string \<Rightarrow> bool" where
  "utf8_valid [] = True"
| "utf8_valid (a # cs) =
     (if byte a < 0x80 then utf8_valid cs
      else if 0xC2 \<le> byte a \<and> byte a \<le> 0xDF then
        (case cs of
           b # cs' \<Rightarrow> continuation b \<and> utf8_valid cs'
         | _ \<Rightarrow> False)
      else if 0xE0 \<le> byte a \<and> byte a \<le> 0xEF then
        (case cs of
           b # c # cs' \<Rightarrow>
             (if byte a = 0xE0 then 0xA0 \<le> byte b \<and> byte b \<le> 0xBF
              else if byte a = 0xED then 0x80 \<le> byte b \<and> byte b \<le> 0x9F
              else continuation b)
             \<and> continuation c \<and> utf8_valid cs'
         | _ \<Rightarrow> False)
      else if 0xF0 \<le> byte a \<and> byte a \<le> 0xF4 then
        (case cs of
           b # c # d # cs' \<Rightarrow>
             (if byte a = 0xF0 then 0x90 \<le> byte b \<and> byte b \<le> 0xBF
              else if byte a = 0xF4 then 0x80 \<le> byte b \<and> byte b \<le> 0x8F
              else continuation b)
             \<and> continuation c \<and> continuation d \<and> utf8_valid cs'
         | _ \<Rightarrow> False)
      else False)"

definition decode_utf8 :: "string \<Rightarrow> error + string" where
  "decode_utf8 bs = (if utf8_valid bs then Inr bs else Inl UnicodeDecodeError)"

subsection \<open>The parser\<close>

fun content_truthy :: "content \<Rightarrow> bool" where
  "content_truthy (CBytes bs) = (bs \<noteq> [])"
| "content_truthy (CText t) = (t \<noteq> [])"
| "content_truthy CNone = False"

definition format_optional_text :: "string option \<Rightarrow> string" where
  \<comment> \<open>\<^verbatim>\<open>'{c}'.format(c=x)\<close> for a text or \<^verbatim>\<open>None\<close>\<close>
  "format_optional_text x = (case x of None \<Rightarrow> ''None'' | Some c \<Rightarrow> c)"

text \<open>
  \<open>decoded_content\<close> is \<open>None\<close> for Python's \<^verbatim>\<open>None\<close>. The function returns what
  \<^verbatim>\<open>parse_response\<close> returns or raises, and the lines it prints.
\<close>

definition parse_response :: "response \<Rightarrow> (error + string option) \<times> event list" where
  "parse_response response =
     (case (if content_truthy (content response) then
              (case content response of
                 CBytes bs \<Rightarrow> (case decode_utf8 bs of Inl e \<Rightarrow> Inl e | Inr t \<Rightarrow> Inr (Some t))
               | CText t \<Rightarrow> Inr (Some t)
               | CNone \<Rightarrow> Inr None)
            else Inr None) of
        Inl e \<Rightarrow> (Inl e, [])
      | Inr decoded_content \<Rightarrow>
          if status_code response \<notin> set [200, 202] then
            (let msg = ''Received HTTP code ['' @ str_int (status_code response)
                         @ ''] with headers:\<newline>'' @ headers response;
                 msg = (case decoded_content of
                          Some c \<Rightarrow> if c \<noteq> [] then msg @ ''\<newline>and content:\<newline>'' @ c else msg
                        | None \<Rightarrow> msg)
             in (Inl (Cons3rtClientError msg), []))
          else
            (Inr decoded_content,
             [Print (if status_code response = 200 then ''Received an OK HTTP Response Code''
                     else ''Received an ACCEPTED HTTP Response Code (202)''),
              Print (''Parsed decoded content: '' @ format_optional_text decoded_content)]))"

subsection \<open>Vocabulary for the claims about the parser\<close>

fun decodable :: "content \<Rightarrow> bool" where
  "decodable (CBytes bs) = utf8_valid bs"
| "decodable _ = True"

fun body_text :: "content \<Rightarrow> string option" where
  \<comment> \<open>the text of a body that is present, \<open>None\<close> for an absent or empty one\<close>
  "body_text (CBytes bs) = (if bs = [] then None else Some bs)"
| "body_text (CText t) = (if t = [] then None else Some t)"
| "body_text CNone = None"

definition bad_status_msg :: "response \<Rightarrow> string" where
  "bad_status_msg r =
     ''Received HTTP code ['' @ str_int (status_code r) @ ''] with headers:\<newline>'' @ headers r
       @ (case body_text (content r) of
            None \<Rightarrow> []
          | Some c \<Rightarrow> ''\<newline>and content:\<newline>'' @ c)"

section \<open>Python values: the operations the plugin applies to decoded JSON\<close>

text \<open>
  Three operations of the Python runtime are parameters of the model: the JSON decoder
  \<^verbatim>\<open>json.loads\<close>, the text \<^verbatim>\<open>str(x)\<close> of a list or a dictionary, and the order \<^verbatim>\<open><\<close> of two
  lists. Everything proved holds for every choice of them.
\<close>

record pylib =
  json_loads :: "string \<Rightarrow> error + pyval"
  container_repr :: "pyval \<Rightarrow> string"
  list_lt :: "pyval list \<Rightarrow> pyval list \<Rightarrow> error + bool"

definition bind_err :: "error + 'a \<Rightarrow> ('a \<Rightarrow> error + 'b) \<Rightarrow> error + 'b" where
  \<comment> \<open>sequencing of two steps, the first of which may raise\<close>
  "bind_err m f = (case m of Inl e \<Rightarrow> Inl e | Inr x \<Rightarrow> f x)"

fun map_err :: "('a \<Rightarrow> error + 'b) \<Rightarrow> 'a list \<Rightarrow> error + 'b list" where
  \<comment> \<open>a loop that applies \<open>f\<close> to each element in turn and stops at the first exception\<close>
  "map_err f [] = Inr []"
| "map_err f (x # xs) =
     bind_err (f x) (\<lambda>y. bind_err (map_err f xs) (\<lambda>ys. Inr (y # ys)))"

definition py_str :: "pylib \<Rightarrow> pyval \<Rightarrow> string" where
  \<comment> \<open>\<^verbatim>\<open>str(x)\<close>\<close>
  "py_str lib v =
     (case v of
        PyNone \<Rightarrow> ''None''
      | PyBool b \<Rightarrow> (if b then ''True'' else ''False'')
      | PyInt i \<Rightarrow> str_int i
      | PyStr s \<Rightarrow> s
      | PyList xs \<Rightarrow> container_repr lib v
      | PyDict kvs \<Rightarrow> container_repr lib v)"

fun py_getitem :: "pyval \<Rightarrow> string \<Rightarrow> error + pyval" where
  \<comment> \<open>\<^verbatim>\<open>x[k]\<close> for a text \<open>k\<close>: only a dictionary can be indexed by a text\<close>
  "py_getitem (PyDict kvs) k = (case map_of kvs k of None \<Rightarrow> Inl (KeyError k) | Some v \<Rightarrow> Inr v)"
| "py_getitem _ k = Inl TypeError"

fun py_update :: "pyval \<Rightarrow> string \<Rightarrow> pyval \<Rightarrow> error + pyval" where
  \<comment> \<open>\<^verbatim>\<open>x.update({k: v})\<close>: the value of an existing key is replaced in place, a new key is
      added at the end; only a dictionary has the method\<close>
  "py_update (PyDict kvs) k v = Inr (PyDict (AList.update k v kvs))"
| "py_update _ k v = Inl AttributeError"

function utf8_chars :: "string \<Rightarrow> string list" where
  \<comment> \<open>the characters of a text: each starts at a byte that is not a continuation byte\<close>
  "utf8_chars [] = []"
| "utf8_chars (c # cs) = (c # takeWhile continuation cs) # utf8_chars (dropWhile continuation cs)"
  by pat_completeness auto
termination
  by (relation "measure length") (auto simp: less_Suc_eq_le length_dropWhile_le)

fun py_iter :: "pyval \<Rightarrow> error + pyval list" where
  \<comment> \<open>the elements a \<^verbatim>\<open>for\<close> loop or \<^verbatim>\<open>list.extend\<close> takes from a value\<close>
  "py_iter (PyList xs) = Inr xs"
| "py_iter (PyDict kvs) = Inr (map (\<lambda>kv. PyStr (fst kv)) kvs)"
| "py_iter (PyStr s) = Inr (map PyStr (utf8_chars s))"
| "py_iter _ = Inl TypeError"

fun py_truthy :: "pyval \<Rightarrow> bool" where
  "py_truthy PyNone = False"
| "py_truthy (PyBool b) = b"
| "py_truthy (PyInt i) = (i \<noteq> 0)"
| "py_truthy (PyStr s) = (s \<noteq> [])"
| "py_truthy (PyList xs) = (xs \<noteq> [])"
| "py_truthy (PyDict kvs) = (kvs \<noteq> [])"

fun py_number :: "pyval \<Rightarrow> int option" where
  \<comment> \<open>\<^verbatim>\<open>bool\<close> is a subclass of \<^verbatim>\<open>int\<close>\<close>
  "py_number (PyInt i) = Some i"
| "py_number (PyBool b) = Some (if b then 1 else 0)"
| "py_number _ = None"

definition py_lt :: "pylib \<Rightarrow> pyval \<Rightarrow> pyval \<Rightarrow> error + bool" where
  \<comment> \<open>\<^verbatim>\<open>a < b\<close>\<close>
  "py_lt lib a b =
     (case (py_number a, py_number b) of
        (Some x, Some y) \<Rightarrow> Inr (x < y)
      | _ \<Rightarrow>
        (case (a, b) of
           (PyStr s, PyStr t) \<Rightarrow> Inr (s < t)
         | (PyList xs, PyList ys) \<Rightarrow> list_lt lib xs ys
         | _ \<Rightarrow> Inl TypeError))"

section \<open>The API client: get\_drs, get\_dr\_hosts, get\_dr\_host\_details\<close>

definition content_decode :: "content \<Rightarrow> error + string" where
  \<comment> \<open>\<^verbatim>\<open>response.content.decode('utf-8')\<close>: only \<^verbatim>\<open>bytes\<close> has the method\<close>
  "content_decode c =
     (case c of CBytes bs \<Rightarrow> decode_utf8 bs | CText t \<Rightarrow> Inl AttributeError | CNone \<Rightarrow> Inl AttributeError)"

definition loads_response :: "pylib \<Rightarrow> response \<Rightarrow> error + pyval" where
  \<comment> \<open>\<^verbatim>\<open>json.loads(response.content.decode('utf-8'))\<close>\<close>
  "loads_response lib r = bind_err (content_decode (content r)) (json_loads lib)"

definition get_drs :: "pylib \<Rightarrow> session \<Rightarrow> server \<Rightarrow> (error + pyval) \<times> event list" where
  "get_drs lib s srv =
     (case http_get s srv (PyStr ''/api/drs?search_type=SEARCH_AVAILABLE&in_project=true'') of
        (Inl e, tr) \<Rightarrow> (Inl e, tr)
      | (Inr r, tr) \<Rightarrow> (loads_response lib r, tr))"

text \<open>
  The loop of \<^verbatim>\<open>get_dr_hosts\<close> over the elements of \<^verbatim>\<open>deployment_run['deploymentRunHosts']\<close>.
  The dictionaries are updated in place, so the list that is returned holds the stamped
  elements.
\<close>

definition stamp_host :: "pyval \<Rightarrow> pyval \<Rightarrow> pyval \<Rightarrow> error + pyval" where
  "stamp_host deployment_run_id deployment_run d =
     bind_err (py_update d ''drId'' deployment_run_id) (\<lambda>d1.
     bind_err (py_getitem deployment_run ''name'') (\<lambda>name.
     py_update d1 ''drName'' name))"

definition stamp_hosts :: "pyval \<Rightarrow> pyval \<Rightarrow> error + pyval" where
  "stamp_hosts deployment_run_id deployment_run =
     bind_err (py_getitem deployment_run ''deploymentRunHosts'') (\<lambda>hosts.
     bind_err (py_iter hosts) (\<lambda>ds.
     bind_err (map_err (stamp_host deployment_run_id deployment_run) ds) (\<lambda>ds'.
     Inr (case hosts of PyList _ \<Rightarrow> PyList ds' | _ \<Rightarrow> hosts))))"

definition get_dr_hosts :: "pylib \<Rightarrow> session \<Rightarrow> server \<Rightarrow> pyval \<Rightarrow> (error + pyval) \<times> event list" where
  "get_dr_hosts lib s srv deployment_run_id =
     (case http_get s srv (PyStr (''/api/drs/'' @ py_str lib deployment_run_id)) of
        (Inl e, tr) \<Rightarrow> (Inl e, tr)
      | (Inr r, tr) \<Rightarrow> (bind_err (loads_response lib r) (stamp_hosts deployment_run_id), tr))"

definition get_dr_host_details ::
  "pylib \<Rightarrow> session \<Rightarrow> server \<Rightarrow> pyval \<Rightarrow> pyval \<Rightarrow> pyval \<Rightarrow> (error + pyval) \<times> event list" where
  "get_dr_host_details lib s srv deployment_run_id deployment_run_host_id deployment_run_name =
     (case http_get s srv
             (PyStr (''/api/drs/'' @ py_str lib deployment_run_id @ ''/host/''
                       @ py_str lib deployment_run_host_id)) of
        (Inl e, tr) \<Rightarrow> (Inl e, tr)
      | (Inr r, tr) \<Rightarrow>
          (bind_err (loads_response lib r) (\<lambda>deployment_run_host.
           bind_err (py_update deployment_run_host ''drId'' deployment_run_id) (\<lambda>h1.
           py_update h1 ''drName'' deployment_run_name)), tr))"

section \<open>The fetch orchestrator: \_get\_hosts and \_query\<close>

subsection \<open>The worker pool\<close>

text \<open>
  A task submitted to the \<^verbatim>\<open>ThreadPoolExecutor\<close> is a call whose result (a value or an
  exception) and whose effects are fixed by its arguments and the server. What the
  scheduler decides is the order in which the tasks complete. A schedule is a list of task
  numbers: the tasks it names complete in that order, and the \<^verbatim>\<open>with\<close> block waits for
  all the others, which complete after them. Every permutation of the task numbers is a
  schedule that names all tasks. The effects of one task are kept together in the trace.

  The futures are kept in the list \<^verbatim>\<open>results\<close> in the order of submission, and that is
  the order in which the code reads them.
\<close>

definition completion_order :: "nat list \<Rightarrow> nat \<Rightarrow> nat list" where
  "completion_order order n =
     remdups (filter (\<lambda>i. i < n) order) @ filter (\<lambda>i. i \<notin> set order) [0..<n]"

definition run_pool :: "nat list \<Rightarrow> ('r \<times> event list) list \<Rightarrow> 'r list \<times> event list" where
  "run_pool order tasks =
     (map fst tasks,
      concat (map (\<lambda>i. snd (tasks ! i)) (completion_order order (length tasks))))"

subsection \<open>Stage 1: the hosts of the reserved runs\<close>

text \<open>
  The submission loop over \<^verbatim>\<open>drs\<close>: the arguments of the tasks submitted so far, and the
  exception that ended the loop, if one did.
\<close>

fun submit_runs :: "pyval list \<Rightarrow> pyval list \<times> error option" where
  "submit_runs [] = ([], None)"
| "submit_runs (dr # drs) =
     (case py_getitem dr ''fapStatus'' of
        Inl e \<Rightarrow> ([], Some e)
      | Inr status \<Rightarrow>
          if status = PyStr ''RESERVED'' then
            (case py_getitem dr ''id'' of
               Inl e \<Rightarrow> ([], Some e)
             | Inr i \<Rightarrow> (case submit_runs drs of (ids, err) \<Rightarrow> (i # ids, err)))
          else submit_runs drs)"

definition extend_results :: "(error + pyval) list \<Rightarrow> error + pyval list" where
  \<comment> \<open>\<^verbatim>\<open>for r in results: dr_hosts.extend(r.result())\<close>\<close>
  "extend_results results =
     bind_err (map_err (\<lambda>r. bind_err r py_iter) results) (\<lambda>xss. Inr (concat xss))"

definition fetch_run_hosts ::
  "pylib \<Rightarrow> session \<Rightarrow> server \<Rightarrow> nat list \<Rightarrow> pyval list \<Rightarrow> (error + pyval list) \<times> event list" where
  "fetch_run_hosts lib client srv order drs =
     (case submit_runs drs of
        (ids, err) \<Rightarrow>
          (case run_pool order (map (get_dr_hosts lib client srv) ids) of
             (results, tr) \<Rightarrow>
               ((case err of Some e \<Rightarrow> Inl e | None \<Rightarrow> extend_results results), tr)))"

subsection \<open>Stage 2: the detail of every host\<close>

fun submit_details :: "pyval list \<Rightarrow> (pyval \<times> pyval \<times> pyval) list \<times> error option" where
  "submit_details [] = ([], None)"
| "submit_details (dr_host # dr_hosts) =
     (case py_getitem dr_host ''drId'' of
        Inl e \<Rightarrow> ([], Some e)
      | Inr rid \<Rightarrow>
          (case py_getitem dr_host ''id'' of
             Inl e \<Rightarrow> ([], Some e)
           | Inr hid \<Rightarrow>
               (case py_getitem dr_host ''drName'' of
                  Inl e \<Rightarrow> ([], Some e)
                | Inr rname \<Rightarrow>
                    (case submit_details dr_hosts of
                       (args, err) \<Rightarrow> ((rid, hid, rname) # args, err)))))"

definition fetch_host_details ::
  "pylib \<Rightarrow> session \<Rightarrow> server \<Rightarrow> nat list \<Rightarrow> pyval list \<Rightarrow> (error + pyval list) \<times> event list" where
  "fetch_host_details lib client srv order dr_hosts =
     (case submit_details dr_hosts of
        (args, err) \<Rightarrow>
          (case run_pool order
                  (map (\<lambda>(rid, hid, rname). get_dr_host_details lib client srv rid hid rname) args) of
             (results, tr) \<Rightarrow>
               ((case err of Some e \<Rightarrow> Inl e | None \<Rightarrow> map_err (\<lambda>r. r) results), tr)))"

subsection \<open>\_get\_hosts\<close>

text \<open>
  The module holds the URL and the three credentials that \<^verbatim>\<open>_set_credentials\<close> has
  checked; \<^verbatim>\<open>_get_connection\<close> makes the session from them. \<open>order1\<close> and \<open>order2\<close> are the
  schedules of the two stages. The line printed between the stages reports a duration
  read from the clock; the trace records only that it is printed.
\<close>

definition collect_hosts ::
  "pylib \<Rightarrow> session \<Rightarrow> server \<Rightarrow> nat list \<Rightarrow> nat list \<Rightarrow> pyval list
     \<Rightarrow> (error + pyval list) \<times> event list" where
  \<comment> \<open>the two stages, from the runs that the loop over \<^verbatim>\<open>drs\<close> visits\<close>
  "collect_hosts lib client srv order1 order2 runs =
     (case fetch_run_hosts lib client srv order1 runs of
        (Inl e, tr1) \<Rightarrow> (Inl e, tr1)
      | (Inr dr_hosts, tr1) \<Rightarrow>
          (case fetch_host_details lib client srv order2 dr_hosts of
             (res, tr2) \<Rightarrow> (res, tr1 @ [PrintElapsed] @ tr2)))"

definition get_hosts ::
  "pylib \<Rightarrow> string \<Rightarrow> credentials \<Rightarrow> server \<Rightarrow> nat list \<Rightarrow> nat list
     \<Rightarrow> (error + pyval list) \<times> event list" where
  "get_hosts lib cons3rt_url creds srv order1 order2 =
     (let client = Session cons3rt_url creds in
      case get_drs lib client srv of
        (Inl e, tr0) \<Rightarrow> (Inl e, tr0)
      | (Inr drs, tr0) \<Rightarrow>
          (case py_iter drs of
             Inl e \<Rightarrow> (Inl e, tr0)
           | Inr runs \<Rightarrow>
               (case collect_hosts lib client srv order1 order2 runs of
                  (res, tr) \<Rightarrow> (res, tr0 @ tr))))"

subsection \<open>\_query\<close>

text \<open>
  \<^verbatim>\<open>sorted(hosts, key=lambda x: x['id'])\<close> computes the key of every element first, then
  sorts the elements by their keys with \<^verbatim>\<open><\<close>, keeping elements with equal keys in their
  original order. The model inserts each element in front of the first element whose key
  is not smaller, from the last element to the first. Where \<^verbatim>\<open><\<close> is a total order on the
  keys (all numbers, or all texts) this is the one stable arrangement in ascending order,
  which is what the library's sort returns.
\<close>

fun insort_pair :: "pylib \<Rightarrow> pyval \<times> pyval \<Rightarrow> (pyval \<times> pyval) list \<Rightarrow> error + (pyval \<times> pyval) list" where
  "insort_pair lib x [] = Inr [x]"
| "insort_pair lib x (y # ys) =
     bind_err (py_lt lib (fst y) (fst x)) (\<lambda>smaller.
       if smaller then bind_err (insort_pair lib x ys) (\<lambda>zs. Inr (y # zs))
       else Inr (x # y # ys))"

fun sort_pairs :: "pylib \<Rightarrow> (pyval \<times> pyval) list \<Rightarrow> error + (pyval \<times> pyval) list" where
  "sort_pairs lib [] = Inr []"
| "sort_pairs lib (x # xs) = bind_err (sort_pairs lib xs) (insort_pair lib x)"

definition sorted_by_id :: "pylib \<Rightarrow> pyval list \<Rightarrow> error + pyval list" where
  "sorted_by_id lib hosts =
     bind_err (map_err (\<lambda>x. py_getitem x ''id'') hosts) (\<lambda>keys.
     bind_err (sort_pairs lib (zip keys hosts)) (\<lambda>ps.
     Inr (map snd ps)))"

definition query ::
  "pylib \<Rightarrow> string \<Rightarrow> credentials \<Rightarrow> server \<Rightarrow> nat list \<Rightarrow> nat list \<Rightarrow> (error + pyval) \<times> event list" where
  "query lib cons3rt_url creds srv order1 order2 =
     (case get_hosts lib cons3rt_url creds srv order1 order2 of
        (Inl e, tr) \<Rightarrow> (Inl e, tr)
      | (Inr hosts, tr) \<Rightarrow>
          (bind_err (sorted_by_id lib hosts) (\<lambda>hosts'. Inr (PyDict [(''cons3rt'', PyList hosts')])), tr))"

section \<open>Inventory population: \_add\_hosts\<close>

text \<open>
  The inventory and the \<^verbatim>\<open>Constructable\<close> helpers belong to Ansible. The model records the
  calls the plugin makes to them, in order: that list is what the inventory receives.
  \<^verbatim>\<open>camel_dict_to_snake_dict\<close> is Ansible's too and is a parameter.
\<close>

datatype sink_call =
    AddHost pyval string
  | SetVariable pyval string pyval
  | SetCompositeVars pyval pyval
  | AddHostToComposedGroups pyval pyval
  | AddHostToKeyedGroups pyval pyval

fun py_items :: "pyval \<Rightarrow> error + (string \<times> pyval) list" where
  \<comment> \<open>\<^verbatim>\<open>x.items()\<close>\<close>
  "py_items (PyDict kvs) = Inr kvs"
| "py_items _ = Inl AttributeError"

text \<open>
  The loop of \<^verbatim>\<open>_add_hosts\<close>. The result is the exception that ended it, if one did, and the
  calls made up to then. Every call to the inventory is taken to return. A call that
  raises (Ansible's \<^verbatim>\<open>add_host\<close> rejects a host name that is not a text) would end the loop at
  that call, and the inventory would have received a prefix of the calls recorded here.
\<close>

fun add_hosts ::
  "(pyval \<Rightarrow> pyval) \<Rightarrow> pyval list \<Rightarrow> string \<Rightarrow> sink_call list \<Rightarrow> error option \<times> sink_call list" where
  "add_hosts camel_dict_to_snake_dict [] group_name calls = (None, calls)"
| "add_hosts camel_dict_to_snake_dict (host # hosts) group_name calls =
     (case py_getitem host ''systemRole'' of
        Inl e \<Rightarrow> (Some e, calls)
      | Inr hostname \<Rightarrow>
          (let host' = camel_dict_to_snake_dict host in
           if \<not> py_truthy hostname then add_hosts camel_dict_to_snake_dict hosts group_name calls
           else
             (case py_items host' of
                Inl e \<Rightarrow> (Some e, calls @ [AddHost hostname group_name])
              | Inr items \<Rightarrow>
                  add_hosts camel_dict_to_snake_dict hosts group_name
                    (calls @ [AddHost hostname group_name]
                       @ map (\<lambda>(hostvar, hostval). SetVariable hostname hostvar hostval) items
                       @ [SetCompositeVars host' hostname,
                          AddHostToComposedGroups host' hostname,
                          AddHostToKeyedGroups host' hostname]))))"

section \<open>Vocabulary for the claims about the fetch\<close>

text \<open>
  A server whose responses carry other status codes: \<open>with_status f srv\<close> answers as \<open>srv\<close>
  does, with the status code \<open>c\<close> of every response replaced by \<open>f c\<close>.
\<close>

definition map_status :: "(int \<Rightarrow> int) \<Rightarrow> outcome \<Rightarrow> outcome" where
  "map_status f out =
     (case out of
        Returns r \<Rightarrow> Returns (r\<lparr>status_code := f (status_code r)\<rparr>)
      | Raises c e \<Rightarrow> Raises c e
      | SetupRaises e \<Rightarrow> SetupRaises e)"

definition with_status :: "(int \<Rightarrow> int) \<Rightarrow> server \<Rightarrow> server" where
  "with_status f srv url k = map_status f (srv url k)"

definition tagged :: "pyval \<Rightarrow> pyval \<Rightarrow> pyval \<Rightarrow> bool" where
  \<comment> \<open>the record carries the identity of its parent run\<close>
  "tagged d run_id run_name \<longleftrightarrow>
     py_getitem d ''drId'' = Inr run_id \<and> py_getitem d ''drName'' = Inr run_name"

definition reserved :: "pyval \<Rightarrow> bool" where
  "reserved dr \<longleftrightarrow> py_getitem dr ''fapStatus'' = Inr (PyStr ''RESERVED'')"

definition run_detail :: "pylib \<Rightarrow> session \<Rightarrow> server \<Rightarrow> pyval \<Rightarrow> error + pyval" where
  \<comment> \<open>the document that \<^verbatim>\<open>GET /api/drs/{run_id}\<close> decodes to\<close>
  "run_detail lib s srv run_id =
     bind_err (fst (http_get s srv (PyStr (''/api/drs/'' @ py_str lib run_id)))) (loads_response lib)"

definition stamped :: "pyval \<Rightarrow> pyval \<Rightarrow> pyval \<Rightarrow> pyval \<Rightarrow> bool" where
  \<comment> \<open>\<open>d\<close> is the dictionary \<open>d0\<close> with \<open>drId\<close> and \<open>drName\<close> set, everything else kept\<close>
  "stamped d0 run_id run_name d \<longleftrightarrow>
     (case d0 of
        PyDict kvs \<Rightarrow>
          d = PyDict (AList.update ''drName'' run_name (AList.update ''drId'' run_id kvs))
      | _ \<Rightarrow> False)"

definition host_detail :: "pylib \<Rightarrow> session \<Rightarrow> server \<Rightarrow> pyval \<Rightarrow> pyval \<Rightarrow> error + pyval" where
  \<comment> \<open>the document that \<^verbatim>\<open>GET /api/drs/{run_id}/host/{host_id}\<close> decodes to\<close>
  "host_detail lib s srv run_id host_id =
     bind_err
       (fst (http_get s srv
               (PyStr (''/api/drs/'' @ py_str lib run_id @ ''/host/'' @ py_str lib host_id))))
       (loads_response lib)"

definition elements :: "pyval \<Rightarrow> pyval list" where
  "elements v = (case py_iter v of Inr xs \<Rightarrow> xs | Inl e \<Rightarrow> [])"

definition id_of :: "pyval \<Rightarrow> pyval" where
  \<comment> \<open>the sort key \<^verbatim>\<open>x['id']\<close> of a record that has one\<close>
  "id_of h = (case py_getitem h ''id'' of Inr k \<Rightarrow> k | Inl e \<Rightarrow> PyNone)"

definition number_key :: "pyval \<Rightarrow> int" where
  "number_key k = (case py_number k of Some i \<Rightarrow> i | None \<Rightarrow> 0)"

definition text_key :: "pyval \<Rightarrow> string" where
  "text_key k = (case k of PyStr s \<Rightarrow> s | _ \<Rightarrow> [])"

definition has_number_id :: "pyval \<Rightarrow> bool" where
  "has_number_id h = (case py_getitem h ''id'' of Inr k \<Rightarrow> py_number k \<noteq> None | Inl e \<Rightarrow> False)"

definition has_text_id :: "pyval \<Rightarrow> bool" where
  "has_text_id h = (case py_getitem h ''id'' of Inr k \<Rightarrow> is_str k | Inl e \<Rightarrow> False)"

section \<open>Vocabulary for the claims about inventory population\<close>

fun call_hostname :: "sink_call \<Rightarrow> pyval" where
  \<comment> \<open>the host that a call to the inventory names\<close>
  "call_hostname (AddHost hostname group_name) = hostname"
| "call_hostname (SetVariable hostname hostvar hostval) = hostname"
| "call_hostname (SetCompositeVars host hostname) = hostname"
| "call_hostname (AddHostToComposedGroups host hostname) = hostname"
| "call_hostname (AddHostToKeyedGroups host hostname) = hostname"

section \<open>Concrete inputs\<close>

text \<open>
  Sessions, servers and documents on which the definitions are evaluated.
\<close>

definition example_credentials :: credentials where
  "example_credentials =
     \<lparr>cert_file_path = ''/etc/cons3rt/user.p12'', cert_password = ''secret'', cons3rt_token = ''tok''\<rparr>"

definition example_session :: session where
  "example_session = Session ''https://api.example/rest'' example_credentials"

definition ok_response :: response where
  "ok_response = \<lparr>status_code = 200, headers = ''{}'', content = CBytes ''[]''\<rparr>"

definition fails_then_returns :: "int \<Rightarrow> response \<Rightarrow> server" where
  \<comment> \<open>Attempts 1 to \<open>N\<close> raise a connection error; every later attempt returns \<open>r\<close>.\<close>
  "fails_then_returns N r url k = (if k \<le> N then Raises RequestException ''refused'' else Returns r)"

definition not_found_response :: response where
  "not_found_response = \<lparr>status_code = 404, headers = ''{}'', content = CBytes ''not found''\<rparr>"

definition undecodable_response :: response where
  \<comment> \<open>a body of the single byte 0xFF, which no UTF-8 text contains\<close>
  "undecodable_response = \<lparr>status_code = 404, headers = ''{}'', content = CBytes [CHR 0xFF]\<rparr>"

text \<open>
  A server that answers every request at the first attempt, from a table of bodies by
  URL, and a decoder that decodes the bodies of the examples as \<^verbatim>\<open>json.loads\<close> does.
\<close>

definition table_server :: "(string \<times> int \<times> string) list \<Rightarrow> server" where
  "table_server tbl url k =
     (case map_of tbl url of
        Some (code, body) \<Rightarrow> Returns \<lparr>status_code = code, headers = ''{}'', content = CBytes body\<rparr>
      | None \<Rightarrow> Raises RequestException ''unreachable'')"

definition table_lib :: "(string \<times> pyval) list \<Rightarrow> pylib" where
  "table_lib docs =
     \<lparr>json_loads = (\<lambda>t. case map_of docs t of Some v \<Rightarrow> Inr v | None \<Rightarrow> Inl JSONDecodeError),
      container_repr = (\<lambda>v. ''[...]''),
      list_lt = (\<lambda>xs ys. Inl TypeError)\<rparr>"

definition example_docs :: "(string \<times> pyval) list" where
  \<open>example_docs =
     [(''[{"id": 1, "name": "alpha", "fapStatus": "RESERVED"}, {"id": 2, "name": "beta", "fapStatus": "RESERVED"}, {"id": 3, "name": "gamma", "fapStatus": "RELEASED"}]'',
       PyList [PyDict [(''id'', PyInt 1), (''name'', PyStr ''alpha''), (''fapStatus'', PyStr ''RESERVED'')],
               PyDict [(''id'', PyInt 2), (''name'', PyStr ''beta''), (''fapStatus'', PyStr ''RESERVED'')],
               PyDict [(''id'', PyInt 3), (''name'', PyStr ''gamma''), (''fapStatus'', PyStr ''RELEASED'')]]),
      (''{"name": "alpha", "deploymentRunHosts": [{"id": 12}, {"id": 11}]}'',
       PyDict [(''name'', PyStr ''alpha''),
               (''deploymentRunHosts'', PyList [PyDict [(''id'', PyInt 12)], PyDict [(''id'', PyInt 11)]])]),
      (''{"name": "beta", "deploymentRunHosts": [{"id": 10}]}'',
       PyDict [(''name'', PyStr ''beta''),
               (''deploymentRunHosts'', PyList [PyDict [(''id'', PyInt 10)]])]),
      (''{"id": 12, "systemRole": "web"}'', PyDict [(''id'', PyInt 12), (''systemRole'', PyStr ''web'')]),
      (''{"id": 11, "systemRole": "db"}'', PyDict [(''id'', PyInt 11), (''systemRole'', PyStr ''db'')]),
      (''{"id": 10, "systemRole": ""}'', PyDict [(''id'', PyInt 10), (''systemRole'', PyStr '''')]),
      (''[]'', PyList [])]\<close>

definition example_lib :: pylib where
  "example_lib = table_lib example_docs"

definition example_server :: server where
  \<open>example_server = table_server
     [(''https://api.example/rest/api/drs?search_type=SEARCH_AVAILABLE&in_project=true'',
       200, ''[{"id": 1, "name": "alpha", "fapStatus": "RESERVED"}, {"id": 2, "name": "beta", "fapStatus": "RESERVED"}, {"id": 3, "name": "gamma", "fapStatus": "RELEASED"}]''),
      (''https://api.example/rest/api/drs/1'', 200, ''{"name": "alpha", "deploymentRunHosts": [{"id": 12}, {"id": 11}]}''),
      (''https://api.example/rest/api/drs/2'', 200, ''{"name": "beta", "deploymentRunHosts": [{"id": 10}]}''),
      (''https://api.example/rest/api/drs/1/host/12'', 200, ''{"id": 12, "systemRole": "web"}''),
      (''https://api.example/rest/api/drs/1/host/11'', 200, ''{"id": 11, "systemRole": "db"}''),
      (''https://api.example/rest/api/drs/2/host/10'', 200, ''{"id": 10, "systemRole": ""}'')]\<close>


definition example_detail :: "int \<Rightarrow> string \<Rightarrow> int \<Rightarrow> string \<Rightarrow> pyval" where
  "example_detail host_id role run_id run_name =
     PyDict [(''id'', PyInt host_id), (''systemRole'', PyStr role),
             (''drId'', PyInt run_id), (''drName'', PyStr run_name)]"

definition example_details :: "pyval list" where
  \<comment> \<open>what \<^verbatim>\<open>_get_hosts\<close> collects from the example server, in the order of collection\<close>
  "example_details =
     [example_detail 12 ''web'' 1 ''alpha'', example_detail 11 ''db'' 1 ''alpha'',
      example_detail 10 '''' 2 ''beta'']"

definition error_status_server :: server where
  "error_status_server = table_server
     [(''https://api.example/rest/api/drs?search_type=SEARCH_AVAILABLE&in_project=true'', 500, ''[]'')]"

definition example_run :: "int \<Rightarrow> string \<Rightarrow> string \<Rightarrow> pyval" where
  "example_run run_id name status =
     PyDict [(''id'', PyInt run_id), (''name'', PyStr name), (''fapStatus'', PyStr status)]"




text \<open>
  A converter that renames the keys of the flat records of the examples as
  \<^verbatim>\<open>camel_dict_to_snake_dict\<close> does.
\<close>

definition example_snake :: "pyval \<Rightarrow> pyval" where
  "example_snake h =
     (case h of
        PyDict kvs \<Rightarrow>
          PyDict (map (\<lambda>kv. ((case map_of [(''systemRole'', ''system_role''), (''drId'', ''dr_id''),
                                              (''drName'', ''dr_name'')] (fst kv) of
                                   Some k \<Rightarrow> k | None \<Rightarrow> fst kv), snd kv)) kvs)
      | _ \<Rightarrow> h)"

definition host_without_role :: pyval where
  "host_without_role = PyDict [(''id'', PyInt 9), (''drId'', PyInt 2), (''drName'', PyStr ''beta'')]"

section \<open>Properties of the retry loop\<close>

lemma loop_exhausted:
  "max_retry_attempts s \<le> a \<Longrightarrow>
   http_get_loop s env url a tally tr = (Inl (Cons3rtClientError (exhausted_msg s tally)), tr)"
  by (simp add: http_get_loop.simps exhausted_msg_def)

lemma loop_returns:
  "a < max_retry_attempts s \<Longrightarrow> env a = Returns r \<Longrightarrow>
   http_get_loop s env url a tally tr = (Inr r, tr @ [Get url])"
  by (simp add: http_get_loop.simps)

lemma loop_propagates:
  "a < max_retry_attempts s \<Longrightarrow> env a = Raises c e \<Longrightarrow> \<not> isinstance_exc c RequestException \<Longrightarrow>
   http_get_loop s env url a tally tr = (Inl (Propagated e), tr @ [Get url])"
  by (cases c) (simp_all add: http_get_loop.simps)

lemma loop_retries:
  "a < max_retry_attempts s \<Longrightarrow> network_error (env a) \<Longrightarrow>
   http_get_loop s env url a tally tr =
     http_get_loop s env url (a + 1)
       (tally @ request_exception_msg a (exc_text (env a)) @ ''\<newline>'')
       (tr @ [Get url, Print (request_exception_msg a (exc_text (env a))), Sleep (retry_time_sec s)])"
  by (cases "env a") (simp_all add: http_get_loop.simps [of s env url a] Let_def)

lemma loop_after_failures:
  "a + int n \<le> max_retry_attempts s \<Longrightarrow>
   (\<forall>k. a \<le> k \<and> k < a + int n \<longrightarrow> network_error (env k)) \<Longrightarrow>
   http_get_loop s env url a tally tr =
     http_get_loop s env url (a + int n) (tally @ failure_tally env a n) (tr @ failed_trace s env url a n)"
proof (induction n arbitrary: a tally tr)
  case 0
  then show ?case by simp
next
  case (Suc n)
  have a: "a < max_retry_attempts s" and ne: "network_error (env a)"
    using Suc.prems by auto
  have rest: "\<forall>k. a + 1 \<le> k \<and> k < a + 1 + int n \<longrightarrow> network_error (env k)"
    using Suc.prems(2) by auto
  have le: "a + 1 + int n \<le> max_retry_attempts s"
    using Suc.prems(1) by simp
  have "http_get_loop s env url a tally tr =
      http_get_loop s env url (a + 1)
       (tally @ request_exception_msg a (exc_text (env a)) @ ''\<newline>'')
       (tr @ [Get url, Print (request_exception_msg a (exc_text (env a))), Sleep (retry_time_sec s)])"
    using a ne by (rule loop_retries)
  also have "\<dots> = http_get_loop s env url (a + 1 + int n)
       ((tally @ request_exception_msg a (exc_text (env a)) @ ''\<newline>'') @ failure_tally env (a + 1) n)
       ((tr @ [Get url, Print (request_exception_msg a (exc_text (env a))), Sleep (retry_time_sec s)])
          @ failed_trace s env url (a + 1) n)"
    using le rest by (rule Suc.IH)
  finally show ?case
    by (simp add: ac_simps)
qed


lemma count_gets_append [simp]: "count_gets (xs @ ys) = count_gets xs + count_gets ys"
  by (simp add: count_gets_def)

lemma count_sleeps_append [simp]: "count_sleeps (xs @ ys) = count_sleeps xs + count_sleeps ys"
  by (simp add: count_sleeps_def)

lemma count_gets_Nil [simp]: "count_gets [] = 0"
  by (simp add: count_gets_def)

lemma count_gets_Cons [simp]: "count_gets (e # tr) = (if is_Get e then 1 else 0) + count_gets tr"
  by (simp add: count_gets_def)

lemma count_sleeps_Nil [simp]: "count_sleeps [] = 0"
  by (simp add: count_sleeps_def)

lemma count_sleeps_Cons [simp]:
  "count_sleeps (e # tr) = (if is_Sleep e then 1 else 0) + count_sleeps tr"
  by (simp add: count_sleeps_def)

lemma count_gets_failed_trace [simp]: "count_gets (failed_trace s env url a n) = n"
  by (induction n arbitrary: a) simp_all

lemma count_sleeps_failed_trace [simp]: "count_sleeps (failed_trace s env url a n) = n"
  by (induction n arbitrary: a) simp_all

lemma loop_setup_raises:
  "a < max_retry_attempts s \<Longrightarrow> env a = SetupRaises e \<Longrightarrow>
   http_get_loop s env url a tally tr = (Inl (Propagated e), tr)"
  by (simp add: http_get_loop.simps)

lemma loop_result_cases:
  assumes le: "a \<le> max_retry_attempts s"
  obtains
    (exhausted) n where
      "a + int n = max_retry_attempts s"
      "\<forall>k. a \<le> k \<and> k < a + int n \<longrightarrow> network_error (env k)"
      "http_get_loop s env url a tally tr =
         (Inl (Cons3rtClientError (exhausted_msg s (tally @ failure_tally env a n))),
          tr @ failed_trace s env url a n)"
  | (returned) n r where
      "a + int n < max_retry_attempts s"
      "\<forall>k. a \<le> k \<and> k < a + int n \<longrightarrow> network_error (env k)"
      "env (a + int n) = Returns r"
      "http_get_loop s env url a tally tr = (Inr r, tr @ failed_trace s env url a n @ [Get url])"
  | (propagated) n c e where
      "a + int n < max_retry_attempts s"
      "\<forall>k. a \<le> k \<and> k < a + int n \<longrightarrow> network_error (env k)"
      "env (a + int n) = Raises c e" "\<not> isinstance_exc c RequestException"
      "http_get_loop s env url a tally tr =
         (Inl (Propagated e), tr @ failed_trace s env url a n @ [Get url])"
  | (channel) n e where
      "a + int n < max_retry_attempts s"
      "\<forall>k. a \<le> k \<and> k < a + int n \<longrightarrow> network_error (env k)"
      "env (a + int n) = SetupRaises e"
      "http_get_loop s env url a tally tr = (Inl (Propagated e), tr @ failed_trace s env url a n)"
proof -
  define P where "P n \<longleftrightarrow> a + int n \<le> max_retry_attempts s \<and>
    (\<forall>k. a \<le> k \<and> k < a + int n \<longrightarrow> network_error (env k))" for n
  have P0: "P 0" using le by (auto simp: P_def)
  have bound: "\<forall>n. P n \<longrightarrow> n \<le> nat (max_retry_attempts s - a)"
    by (auto simp: P_def)
  obtain n where Pn: "P n" and greatest: "\<forall>m. P m \<longrightarrow> m \<le> n"
    using Nat.ex_has_greatest_nat [of P 0, OF P0 bound] by blast
  have fails: "\<forall>k. a \<le> k \<and> k < a + int n \<longrightarrow> network_error (env k)"
    and n_le: "a + int n \<le> max_retry_attempts s"
    using Pn by (simp_all add: P_def)
  have skip: "http_get_loop s env url a tally tr =
      http_get_loop s env url (a + int n) (tally @ failure_tally env a n)
        (tr @ failed_trace s env url a n)"
    using n_le fails by (rule loop_after_failures)
  show thesis
  proof (cases "a + int n = max_retry_attempts s")
    case True
    then show thesis
      using exhausted [of n] fails skip by (simp add: loop_exhausted)
  next
    case False
    then have lt: "a + int n < max_retry_attempts s" using n_le by simp
    have not_ne: "\<not> network_error (env (a + int n))"
    proof
      assume ne: "network_error (env (a + int n))"
      have "P (Suc n)"
        unfolding P_def
      proof (intro conjI allI impI)
        show "a + int (Suc n) \<le> max_retry_attempts s" using lt by simp
      next
        fix k assume "a \<le> k \<and> k < a + int (Suc n)"
        then have "k < a + int n \<or> k = a + int n" by auto
        then show "network_error (env k)" using fails ne \<open>a \<le> k \<and> k < a + int (Suc n)\<close> by auto
      qed
      then show False using greatest by auto
    qed
    show thesis
    proof (cases "env (a + int n)")
      case (Returns r)
      then show thesis
        using returned [of n r] lt fails skip by (simp add: loop_returns)
    next
      case (Raises c e)
      then have "\<not> isinstance_exc c RequestException" using not_ne by simp
      then show thesis
        using propagated [of n c e] lt fails skip Raises by (simp add: loop_propagates)
    next
      case (SetupRaises e)
      then show thesis
        using channel [of n e] lt fails skip by (simp add: loop_setup_raises)
    qed
  qed
qed


lemma http_get_str:
  "http_get s srv (PyStr t) = http_get_loop s (srv (base s @ t)) (base s @ t) 1 [] []"
  by (simp add: http_get_def validate_target_def Let_def)

lemma Session_simps [simp]:
  "max_retry_attempts (Session b c) = 10" "retry_time_sec (Session b c) = 5"
  "base (Session b c) = b" "credentials (Session b c) = c"
  by (simp_all add: Session_def)

lemma str_int_10: "str_int 10 = ''10''"
  by (simp add: str_int_def str_nat.simps digit_char_def)

text \<open>
  Claim C3, as amended. \<^verbatim>\<open>Session.http_get\<close> terminates for every string target and every
  sequence of attempt outcomes: \<open>http_get\<close> is a total function (the loop's termination is
  proved with the measure \<open>max_retry_attempts - attempt_num\<close>), and a session made by
  \<^verbatim>\<open>Session(...)\<close> issues at most \<open>max_retry_attempts - 1 = 9\<close> GET requests. Every call ends
  in exactly one of four ways, after \<open>n\<close> attempts that failed with a network error:
  it returns the response of attempt \<open>n + 1\<close>, the first that does not raise (\<open>n < 9\<close>); or
  all of the attempts 1 to 9 have failed and it raises \<^verbatim>\<open>Cons3rtClientError\<close>, the message
  holding the tally of exactly these 9 failures; or the request of attempt \<open>n + 1\<close> raises
  an exception outside the \<^verbatim>\<open>requests\<close> hierarchy, which leaves \<^verbatim>\<open>http_get\<close> uncaught
  (\<open>n < 9\<close>); or the set-up of the channel of attempt \<open>n + 1\<close> raises, which leaves
  \<^verbatim>\<open>http_get\<close> uncaught before the request of that attempt is sent (\<open>n < 9\<close>).
\<close>

theorem http_get_terminates_within_nine_attempts:
  "count_gets (snd (http_get (Session b c) srv (PyStr t))) \<le> 9 \<and>
   ((\<exists>n r. n < 9 \<and>
         (\<forall>k. 1 \<le> k \<and> k \<le> int n \<longrightarrow> network_error (srv (b @ t) k)) \<and>
         srv (b @ t) (int n + 1) = Returns r \<and>
         http_get (Session b c) srv (PyStr t) =
           (Inr r, failed_trace (Session b c) (srv (b @ t)) (b @ t) 1 n @ [Get (b @ t)]))
    \<or> ((\<forall>k. 1 \<le> k \<and> k \<le> 9 \<longrightarrow> network_error (srv (b @ t) k)) \<and>
        http_get (Session b c) srv (PyStr t) =
          (Inl (Cons3rtClientError
             (''Max attempts exceeded: 10\<newline>'' @ failure_tally (srv (b @ t)) 1 9)),
           failed_trace (Session b c) (srv (b @ t)) (b @ t) 1 9))
    \<or> (\<exists>n x e. n < 9 \<and>
         (\<forall>k. 1 \<le> k \<and> k \<le> int n \<longrightarrow> network_error (srv (b @ t) k)) \<and>
         srv (b @ t) (int n + 1) = Raises x e \<and> \<not> isinstance_exc x RequestException \<and>
         http_get (Session b c) srv (PyStr t) =
           (Inl (Propagated e), failed_trace (Session b c) (srv (b @ t)) (b @ t) 1 n @ [Get (b @ t)]))
    \<or> (\<exists>n e. n < 9 \<and>
         (\<forall>k. 1 \<le> k \<and> k \<le> int n \<longrightarrow> network_error (srv (b @ t) k)) \<and>
         srv (b @ t) (int n + 1) = SetupRaises e \<and>
         http_get (Session b c) srv (PyStr t) =
           (Inl (Propagated e), failed_trace (Session b c) (srv (b @ t)) (b @ t) 1 n)))"
proof -
  let ?s = "Session b c" and ?url = "b @ t"
  have start: "(1::int) \<le> max_retry_attempts ?s" by simp
  show ?thesis
  proof (rule loop_result_cases [OF start, of "srv ?url" ?url "[]" "[]"], goal_cases)
    case exhausted: (1 n)
    then have n: "n = 9" by simp
    have all: "\<forall>k. 1 \<le> k \<and> k \<le> 9 \<longrightarrow> network_error (srv ?url k)"
      using exhausted(2) n by auto
    show ?thesis
      using exhausted(3) all n
      by (simp add: http_get_str exhausted_msg_def str_int_10)
  next
    case returned: (2 n r)
    then have n: "n < 9" by simp
    have fails: "\<forall>k. 1 \<le> k \<and> k \<le> int n \<longrightarrow> network_error (srv ?url k)"
      using returned(2) by auto
    have ret: "srv ?url (int n + 1) = Returns r"
      using returned(3) by (simp add: add.commute)
    have "\<exists>n r. n < 9 \<and>
         (\<forall>k. 1 \<le> k \<and> k \<le> int n \<longrightarrow> network_error (srv ?url k)) \<and>
         srv ?url (int n + 1) = Returns r \<and>
         http_get ?s srv (PyStr t) = (Inr r, failed_trace ?s (srv ?url) ?url 1 n @ [Get ?url])"
      using n fails ret returned(4) by (auto simp: http_get_str)
    moreover have "count_gets (snd (http_get ?s srv (PyStr t))) \<le> 9"
      using n returned(4) by (simp add: http_get_str)
    ultimately show ?thesis by blast
  next
    case propagated: (3 n x e)
    then have n: "n < 9" by simp
    have fails: "\<forall>k. 1 \<le> k \<and> k \<le> int n \<longrightarrow> network_error (srv ?url k)"
      using propagated(2) by auto
    have rs: "srv ?url (int n + 1) = Raises x e"
      using propagated(3) by (simp add: add.commute)
    have "\<exists>n x e. n < 9 \<and>
         (\<forall>k. 1 \<le> k \<and> k \<le> int n \<longrightarrow> network_error (srv ?url k)) \<and>
         srv ?url (int n + 1) = Raises x e \<and> \<not> isinstance_exc x RequestException \<and>
         http_get ?s srv (PyStr t) =
           (Inl (Propagated e), failed_trace ?s (srv ?url) ?url 1 n @ [Get ?url])"
      using n fails rs propagated(4,5) by (auto simp: http_get_str)
    moreover have "count_gets (snd (http_get ?s srv (PyStr t))) \<le> 9"
      using n propagated(5) by (simp add: http_get_str)
    ultimately show ?thesis by blast
  next
    case channel: (4 n e)
    then have n: "n < 9" by simp
    have fails: "\<forall>k. 1 \<le> k \<and> k \<le> int n \<longrightarrow> network_error (srv ?url k)"
      using channel(2) by auto
    have su: "srv ?url (int n + 1) = SetupRaises e"
      using channel(3) by (simp add: add.commute)
    have "\<exists>n e. n < 9 \<and>
         (\<forall>k. 1 \<le> k \<and> k \<le> int n \<longrightarrow> network_error (srv ?url k)) \<and>
         srv ?url (int n + 1) = SetupRaises e \<and>
         http_get ?s srv (PyStr t) = (Inl (Propagated e), failed_trace ?s (srv ?url) ?url 1 n)"
      using n fails su channel(4) by (auto simp: http_get_str)
    moreover have "count_gets (snd (http_get ?s srv (PyStr t))) \<le> 9"
      using n channel(4) by (simp add: http_get_str)
    ultimately show ?thesis by blast
  qed
qed

theorem http_get_terminates_within_nine_attempts_witness:
  "count_gets (snd (http_get (Session ''https://api.example/rest'' example_credentials)
       (fails_then_returns 2 ok_response) (PyStr ''/api/drs''))) \<le> 9 \<and>
   http_get (Session ''https://api.example/rest'' example_credentials)
       (fails_then_returns 2 ok_response) (PyStr ''/api/drs'') =
     (Inr ok_response,
      failed_trace (Session ''https://api.example/rest'' example_credentials)
        (fails_then_returns 2 ok_response (''https://api.example/rest'' @ ''/api/drs''))
        (''https://api.example/rest'' @ ''/api/drs'') 1 2
      @ [Get (''https://api.example/rest'' @ ''/api/drs'')]) \<and>
   network_error (fails_then_returns 2 ok_response (''https://api.example/rest'' @ ''/api/drs'') 1) \<and>
   network_error (fails_then_returns 2 ok_response (''https://api.example/rest'' @ ''/api/drs'') 2) \<and>
   fails_then_returns 2 ok_response (''https://api.example/rest'' @ ''/api/drs'') 3 = Returns ok_response"
proof -
  let ?s = "Session ''https://api.example/rest'' example_credentials"
  let ?srv = "fails_then_returns 2 ok_response"
  let ?url = "''https://api.example/rest'' @ ''/api/drs''"
  have val: "fst (http_get ?s ?srv (PyStr ''/api/drs'')) = Inr ok_response"
    by code_simp
  have env: "network_error (?srv ?url 1) \<and> network_error (?srv ?url 2) \<and> ?srv ?url 3 = Returns ok_response"
    by (simp add: fails_then_returns_def)
  note T = http_get_terminates_within_nine_attempts
      [of "''https://api.example/rest''" example_credentials ?srv "''/api/drs''"]
  from T have bound: "count_gets (snd (http_get ?s ?srv (PyStr ''/api/drs''))) \<le> 9"
    by (rule conjunct1)
  from T val obtain n r where n: "n < 9"
    and fails: "\<forall>k. 1 \<le> k \<and> k \<le> int n \<longrightarrow> network_error (?srv ?url k)"
    and ret: "?srv ?url (int n + 1) = Returns r"
    and res: "http_get ?s ?srv (PyStr ''/api/drs'') =
           (Inr r, failed_trace ?s (?srv ?url) ?url 1 n @ [Get ?url])"
    by (elim conjE disjE exE) simp_all
  have "\<not> network_error (?srv ?url (int n + 1))" using ret by simp
  then have "\<not> int n + 1 \<le> 2" by (simp add: fails_then_returns_def split: if_splits)
  moreover have "\<not> 3 \<le> int n"
  proof
    assume "3 \<le> int n"
    then have "network_error (?srv ?url 3)" using fails by simp
    then show False by (simp add: fails_then_returns_def)
  qed
  ultimately have n2: "n = 2" by linarith
  have r: "r = ok_response" using res val by simp
  show ?thesis
    using bound res env unfolding n2 r by (intro conjI) simp_all
qed

text \<open>
  Claim C3 as stated fails: a call can end in neither of the two ways the claim names.
  When the request of the first attempt raises an exception outside the \<^verbatim>\<open>requests\<close>
  hierarchy, that exception leaves \<^verbatim>\<open>http_get\<close> after one GET; when the set-up of the
  channel raises (a wrong certificate password, say), the exception leaves \<^verbatim>\<open>http_get\<close>
  before any GET. Neither is a response and neither is \<^verbatim>\<open>Cons3rtClientError\<close>.
\<close>

theorem http_get_lets_other_exceptions_through:
  "http_get example_session (\<lambda>url k. Raises NonRequestsError ''interrupted'') (PyStr ''/api/drs'') =
     (Inl (Propagated ''interrupted''), [Get ''https://api.example/rest/api/drs'']) \<and>
   http_get example_session (\<lambda>url k. SetupRaises ''Invalid password or PKCS12 data'')
       (PyStr ''/api/drs'') =
     (Inl (Propagated ''Invalid password or PKCS12 data''), [])"
  by code_simp

text \<open>
  Claim C1 (retry exhaustion). The claim expects ten failed attempts and ten failure
  messages. The loop tests \<open>attempt_num \<ge> max_retry_attempts\<close> before the attempt, with
  \<open>attempt_num\<close> starting at 1, so the tenth attempt is never made: against a server on
  which all of the attempts 1 to 10 would fail, \<open>http_get\<close> issues 9 GET requests and raises
  \<^verbatim>\<open>Cons3rtClientError\<close> with the text \<^verbatim>\<open>Max attempts exceeded: 10\<close> followed by the 9
  failure messages of the attempts 1 to 9.
\<close>

theorem http_get_gives_up_after_nine_failures:
  "fst (http_get example_session (fails_then_returns 10 ok_response) (PyStr ''/api/drs'')) =
     Inl (Cons3rtClientError
       (''Max attempts exceeded: 10\<newline>'' @
        ''RequestException on GET attempt #1\<newline>refused\<newline>'' @
        ''RequestException on GET attempt #2\<newline>refused\<newline>'' @
        ''RequestException on GET attempt #3\<newline>refused\<newline>'' @
        ''RequestException on GET attempt #4\<newline>refused\<newline>'' @
        ''RequestException on GET attempt #5\<newline>refused\<newline>'' @
        ''RequestException on GET attempt #6\<newline>refused\<newline>'' @
        ''RequestException on GET attempt #7\<newline>refused\<newline>'' @
        ''RequestException on GET attempt #8\<newline>refused\<newline>'' @
        ''RequestException on GET attempt #9\<newline>refused\<newline>'')) \<and>
   count_gets (snd (http_get example_session (fails_then_returns 10 ok_response) (PyStr ''/api/drs''))) = 9"
  by code_simp

text \<open>
  Claim C2 (retry success), at \<open>N = 9\<close>. The server fails the attempts 1 to 9 and would
  answer attempt 10. \<open>http_get\<close> does not return that response: after 9 GET requests and
  9 sleeps it raises the same error as on a server that never answers.
\<close>

theorem http_get_never_makes_tenth_attempt:
  "fails_then_returns 9 ok_response ''https://api.example/rest/api/drs'' 10 = Returns ok_response \<and>
   fst (http_get example_session (fails_then_returns 9 ok_response) (PyStr ''/api/drs'')) \<noteq> Inr ok_response \<and>
   fst (http_get example_session (fails_then_returns 9 ok_response) (PyStr ''/api/drs'')) =
     fst (http_get example_session (fails_then_returns 10 ok_response) (PyStr ''/api/drs'')) \<and>
   count_gets (snd (http_get example_session (fails_then_returns 9 ok_response) (PyStr ''/api/drs''))) = 9 \<and>
   count_sleeps (snd (http_get example_session (fails_then_returns 9 ok_response) (PyStr ''/api/drs''))) = 9"
  by code_simp

text \<open>
  For \<open>N < 9\<close> failures the retry does succeed: the response of attempt \<open>N + 1\<close> is
  returned, after one GET, one printed line and one sleep per failed attempt.
\<close>

lemma http_get_returns_after_failures:
  assumes n: "n < 9"
    and fails: "\<forall>k. 1 \<le> k \<and> k \<le> int n \<longrightarrow> network_error (srv (b @ t) k)"
    and ret: "srv (b @ t) (int n + 1) = Returns r"
  shows "http_get (Session b c) srv (PyStr t) =
           (Inr r, failed_trace (Session b c) (srv (b @ t)) (b @ t) 1 n @ [Get (b @ t)])"
proof -
  let ?s = "Session b c" and ?url = "b @ t"
  have le: "1 + int n \<le> max_retry_attempts ?s" using n by simp
  have fails': "\<forall>k. 1 \<le> k \<and> k < 1 + int n \<longrightarrow> network_error (srv ?url k)"
    using fails by auto
  have "http_get_loop ?s (srv ?url) ?url 1 [] [] =
        http_get_loop ?s (srv ?url) ?url (1 + int n) ([] @ failure_tally (srv ?url) 1 n)
          ([] @ failed_trace ?s (srv ?url) ?url 1 n)"
    using le fails' by (rule loop_after_failures)
  also have "\<dots> = (Inr r, ([] @ failed_trace ?s (srv ?url) ?url 1 n) @ [Get ?url])"
    by (rule loop_returns) (use n ret in \<open>simp_all add: add.commute\<close>)
  finally show ?thesis by (simp add: http_get_str)
qed

lemma http_get_sleeps_once_per_failure:
  assumes "n < 9"
    and "\<forall>k. 1 \<le> k \<and> k \<le> int n \<longrightarrow> network_error (srv (b @ t) k)"
    and "srv (b @ t) (int n + 1) = Returns r"
  shows "count_sleeps (snd (http_get (Session b c) srv (PyStr t))) = n"
    and "count_gets (snd (http_get (Session b c) srv (PyStr t))) = Suc n"
  using http_get_returns_after_failures [of n srv b t r c] assms by simp_all

section \<open>Properties of validate\_target\<close>

text \<open>
  Claim C8, as amended. \<^verbatim>\<open>validate_target\<close> raises \<^verbatim>\<open>Cons3rtClientError\<close> exactly when the
  target is not a \<^verbatim>\<open>str\<close> (\<^verbatim>\<open>None\<close> included), and then \<^verbatim>\<open>http_get\<close> raises that error with
  no effect at all: no GET, no sleep, no printed line. Every \<^verbatim>\<open>str\<close> passes, the empty one
  too.
\<close>

theorem validate_target_rejects_exactly_non_strings:
  "validate_target target =
     (if is_str target then Inr () else Inl (Cons3rtClientError ''Invalid target arg provided'')) \<and>
   (\<not> is_str target \<longrightarrow>
      http_get s srv target = (Inl (Cons3rtClientError ''Invalid target arg provided''), []))"
  by (cases target) (simp_all add: validate_target_def http_get_def)

theorem validate_target_rejects_exactly_non_strings_witness:
  "\<not> is_str PyNone \<and> validate_target PyNone = Inl (Cons3rtClientError ''Invalid target arg provided'') \<and>
   http_get example_session (fails_then_returns 0 ok_response) PyNone =
     (Inl (Cons3rtClientError ''Invalid target arg provided''), [])"
  using validate_target_rejects_exactly_non_strings
    [of PyNone example_session "fails_then_returns 0 ok_response"]
  by simp

text \<open>
  Claim C8 as stated fails for the empty path: \<^verbatim>\<open>validate_target('')\<close> returns normally,
  and \<^verbatim>\<open>http_get('')\<close> goes on to request the base URL.
\<close>

theorem validate_target_accepts_empty_string:
  "validate_target (PyStr '''') = Inr () \<and>
   http_get example_session (fails_then_returns 0 ok_response) (PyStr '''') =
     (Inr ok_response, [Get ''https://api.example/rest''])"
  by code_simp

section \<open>Properties of parse\_response\<close>

lemma parse_response_result:
  "parse_response r =
     (if \<not> decodable (content r) then (Inl UnicodeDecodeError, [])
      else if status_code r \<noteq> 200 \<and> status_code r \<noteq> 202
        then (Inl (Cons3rtClientError (bad_status_msg r)), [])
      else (Inr (body_text (content r)),
            [Print (if status_code r = 200 then ''Received an OK HTTP Response Code''
                    else ''Received an ACCEPTED HTTP Response Code (202)''),
             Print (''Parsed decoded content: '' @ format_optional_text (body_text (content r)))]))"
  by (cases "content r")
    (auto simp: parse_response_def decode_utf8_def bad_status_msg_def Let_def)

text \<open>
  Claim C9, as amended. For a response whose body is absent, empty, already text, or bytes
  that are well-formed UTF-8, \<^verbatim>\<open>parse_response\<close> raises \<^verbatim>\<open>Cons3rtClientError\<close> if and only
  if the status code is neither 200 nor 202; the message then holds the status code, the
  headers and, when a body is present, the decoded body. Otherwise it returns the decoded
  body, or \<^verbatim>\<open>None\<close> when there is no content. Bytes that are not well-formed UTF-8 make
  it raise \<^verbatim>\<open>UnicodeDecodeError\<close>, whatever the status code is.
\<close>

theorem parse_response_raises_iff_bad_status:
  "(decodable (content r) \<longrightarrow>
      ((\<exists>msg. fst (parse_response r) = Inl (Cons3rtClientError msg))
         \<longleftrightarrow> (status_code r \<noteq> 200 \<and> status_code r \<noteq> 202)) \<and>
      (status_code r \<noteq> 200 \<and> status_code r \<noteq> 202 \<longrightarrow>
         fst (parse_response r) = Inl (Cons3rtClientError
           (''Received HTTP code ['' @ str_int (status_code r) @ ''] with headers:\<newline>''
             @ headers r
             @ (case body_text (content r) of
                  None \<Rightarrow> []
                | Some c \<Rightarrow> ''\<newline>and content:\<newline>'' @ c)))) \<and>
      (status_code r = 200 \<or> status_code r = 202 \<longrightarrow>
         fst (parse_response r) = Inr (body_text (content r)))) \<and>
   (\<not> decodable (content r) \<longrightarrow> fst (parse_response r) = Inl UnicodeDecodeError)"
  by (auto simp: parse_response_result bad_status_msg_def)

theorem parse_response_raises_iff_bad_status_witness:
  "decodable (content not_found_response) \<and>
   status_code not_found_response \<noteq> 200 \<and> status_code not_found_response \<noteq> 202 \<and>
   fst (parse_response not_found_response) =
     Inl (Cons3rtClientError
       ''Received HTTP code [404] with headers:\<newline>{}\<newline>and content:\<newline>not found'')"
proof -
  have d: "decodable (content not_found_response)"
    by code_simp
  have s: "status_code not_found_response = 404"
    and h: "headers not_found_response = ''{}''"
    and b: "body_text (content not_found_response) = Some ''not found''"
    by (simp_all add: not_found_response_def)
  have n: "str_int 404 = ''404''"
    by code_simp
  show ?thesis
    using parse_response_raises_iff_bad_status [of not_found_response] d
    by (simp add: s h b n)
qed

text \<open>
  Claim C9 as stated fails for a body that does not decode: the status code is 404 and
  the exception raised is not \<^verbatim>\<open>Cons3rtClientError\<close>, because the body is decoded before the
  status code is examined.
\<close>

theorem parse_response_undecodable_body:
  "status_code undecodable_response = 404 \<and>
   parse_response undecodable_response = (Inl UnicodeDecodeError, [])"
  by code_simp

section \<open>Properties of the API client\<close>

subsection \<open>Sequencing and dictionaries\<close>

lemma bind_err_simps [simp]:
  "bind_err (Inl e) f = Inl e" "bind_err (Inr x) f = f x"
  by (simp_all add: bind_err_def)

lemma bind_err_eq_Inr: "bind_err m f = Inr y \<longleftrightarrow> (\<exists>x. m = Inr x \<and> f x = Inr y)"
  by (cases m) simp_all

lemma map_err_eq_Inr: "map_err f xs = Inr ys \<longleftrightarrow> list_all2 (\<lambda>x y. f x = Inr y) xs ys"
proof (induction xs arbitrary: ys)
  case Nil
  then show ?case by auto
next
  case (Cons x xs)
  then show ?case
    by (cases ys) (auto simp: bind_err_eq_Inr)
qed

lemma py_update_getitem:
  assumes "py_update d k v = Inr d'"
  shows "py_getitem d' k' = (if k' = k then Inr v else py_getitem d k')"
  using assms by (cases d) (auto simp: update_conv')

lemma py_getitem_Inr_dict: "py_getitem d k = Inr v \<Longrightarrow> \<exists>kvs. d = PyDict kvs"
  by (cases d) simp_all

subsection \<open>The status code of a response\<close>

lemma http_get_loop_map_status:
  "http_get_loop s (\<lambda>k. map_status f (env k)) url a tally tr =
     (case http_get_loop s env url a tally tr of
        (Inl e, tr') \<Rightarrow> (Inl e, tr')
      | (Inr r, tr') \<Rightarrow> (Inr (r\<lparr>status_code := f (status_code r)\<rparr>), tr'))"
proof (induction s env url a tally tr rule: http_get_loop.induct)
  case (1 s env url a tally tr)
  show ?case
  proof (cases "max_retry_attempts s \<le> a")
    case True
    then show ?thesis by (simp add: http_get_loop.simps)
  next
    case False
    show ?thesis
    proof (cases "env a")
      case (Returns r)
      then show ?thesis using False
        by (simp add: http_get_loop.simps [of s _ url a] map_status_def)
    next
      case (Raises c e)
      show ?thesis
      proof (cases "isinstance_exc c RequestException")
        case True
        have "http_get_loop s (\<lambda>k. map_status f (env k)) url a tally tr =
              http_get_loop s (\<lambda>k. map_status f (env k)) url (a + 1)
                (tally @ ([] @ request_exception_msg a e) @ ''\<newline>'')
                (tr @ [Get url, Print ([] @ request_exception_msg a e), Sleep (retry_time_sec s)])"
          using False Raises True
          by (simp add: http_get_loop.simps [of s _ url a] map_status_def Let_def)
        moreover have "http_get_loop s env url a tally tr =
              http_get_loop s env url (a + 1)
                (tally @ ([] @ request_exception_msg a e) @ ''\<newline>'')
                (tr @ [Get url, Print ([] @ request_exception_msg a e), Sleep (retry_time_sec s)])"
          using False Raises True
          by (simp add: http_get_loop.simps [of s _ url a] Let_def)
        ultimately show ?thesis
          using "1.IH"(1) [OF _ Raises True refl] False by simp
      next
        case notreq: False
        then have "c = NonRequestsError" by (cases c) simp_all
        then show ?thesis using False Raises
          by (simp add: http_get_loop.simps [of s _ url a] map_status_def)
      qed
    next
      case (SetupRaises e)
      then show ?thesis using False
        by (simp add: http_get_loop.simps [of s _ url a] map_status_def)
    qed
  qed
qed

lemma with_status_url: "with_status f srv url = (\<lambda>k. map_status f (srv url k))"
  by (rule ext) (simp add: with_status_def)

lemma http_get_with_status:
  "http_get s (with_status f srv) target =
     (case http_get s srv target of
        (Inl e, tr) \<Rightarrow> (Inl e, tr)
      | (Inr r, tr) \<Rightarrow> (Inr (r\<lparr>status_code := f (status_code r)\<rparr>), tr))"
proof (cases "is_str target")
  case True
  then obtain t where "target = PyStr t" by (cases target) simp_all
  then show ?thesis
    using http_get_loop_map_status [of s f "srv (base s @ t)" "base s @ t" 1 "[]" "[]"]
    by (simp add: http_get_def validate_target_def with_status_url Let_def)
next
  case False
  then show ?thesis
    by (cases target) (simp_all add: http_get_def validate_target_def)
qed

lemma loads_response_status [simp]:
  "loads_response lib (r\<lparr>status_code := c\<rparr>) = loads_response lib r"
  by (simp add: loads_response_def)


text \<open>
  Claim C4, as amended. The three operations of the API client do not examine the status
  code: each decodes the body of whatever response \<^verbatim>\<open>http_get\<close> returns. Replacing the
  status code of every response of the server by any other changes neither their results
  nor their effects. Only \<^verbatim>\<open>parse_response\<close>, which they do not call, restricts success to
  200 and 202.
\<close>

theorem api_operations_ignore_status_code:
  "get_drs lib s (with_status f srv) = get_drs lib s srv \<and>
   get_dr_hosts lib s (with_status f srv) rid = get_dr_hosts lib s srv rid \<and>
   get_dr_host_details lib s (with_status f srv) rid hid rname =
     get_dr_host_details lib s srv rid hid rname"
  by (auto simp: get_drs_def get_dr_hosts_def get_dr_host_details_def http_get_with_status
      split: prod.splits sum.splits)

text \<open>
  Claim C4 as stated fails: the server answers the listing of runs with status 500 and
  the body \<^verbatim>\<open>[]\<close>; \<^verbatim>\<open>http_get\<close> returns that response and \<^verbatim>\<open>get_drs\<close> decodes its body to
  the empty list of runs, while \<^verbatim>\<open>parse_response\<close> would have raised on it.
\<close>

theorem get_drs_accepts_error_status:
  "http_get example_session error_status_server
       (PyStr ''/api/drs?search_type=SEARCH_AVAILABLE&in_project=true'') =
     (Inr \<lparr>status_code = 500, headers = ''{}'', content = CBytes ''[]''\<rparr>,
      [Get ''https://api.example/rest/api/drs?search_type=SEARCH_AVAILABLE&in_project=true'']) \<and>
   fst (get_drs example_lib example_session error_status_server) = Inr (PyList []) \<and>
   fst (parse_response \<lparr>status_code = 500, headers = ''{}'', content = CBytes ''[]''\<rparr>) =
     Inl (Cons3rtClientError
       ''Received HTTP code [500] with headers:\<newline>{}\<newline>and content:\<newline>[]'')"
  by code_simp

subsection \<open>Stamping with the parent run, and what a fetch that returns has done\<close>

lemma stamp_host_tagged:
  assumes "stamp_host rid run d = Inr d'"
  shows "py_getitem d' ''drId'' = Inr rid" and "py_getitem d' ''drName'' = py_getitem run ''name''"
    and "k \<noteq> ''drId'' \<Longrightarrow> k \<noteq> ''drName'' \<Longrightarrow> py_getitem d' k = py_getitem d k"
  using assms
  by (auto simp: stamp_host_def bind_err_eq_Inr py_update_getitem)







lemma fst_run_pool [simp]: "fst (run_pool order tasks) = map fst tasks"
  by (simp add: run_pool_def)














text \<open>
  The conclusion of the third part of the statement above leaves no freedom: for a given
  decoder and server, at most one list of host lists and at most one list of detail
  records satisfy it.
\<close>

lemma list_all2_right_unique:
  assumes "list_all2 P xs ys" and "list_all2 P xs zs"
    and "\<And>x y z. P x y \<Longrightarrow> P x z \<Longrightarrow> y = z"
  shows "ys = zs"
  using assms(1,2)
proof (induction xs ys arbitrary: zs rule: list_all2_induct)
  case Nil
  then show ?case by simp
next
  case (Cons x xs y ys)
  from Cons.prems obtain z zs' where zs: "zs = z # zs'" and z: "P x z" and r: "list_all2 P xs zs'"
    by (auto simp: list_all2_Cons1)
  have "y = z" using Cons.hyps(1) z by (rule assms(3))
  moreover have "ys = zs'" using r by (rule Cons.IH)
  ultimately show ?case using zs by simp
qed

lemma stamped_unique: "stamped d0 rid name d \<Longrightarrow> stamped d0 rid name d' \<Longrightarrow> d = d'"
  by (cases d0) (simp_all add: stamped_def)

lemma tagged_unique: "tagged H rid name \<Longrightarrow> tagged H rid' name' \<Longrightarrow> rid = rid' \<and> name = name'"
  by (simp add: tagged_def)

lemma fetched_details_determined:
  assumes h: "list_all2
           (\<lambda>R hosts. \<exists>rid run hosts0. py_getitem R ''id'' = Inr rid \<and>
              run_detail lib s srv rid = Inr run \<and>
              py_getitem run ''deploymentRunHosts'' = Inr hosts0 \<and>
              list_all2
                (\<lambda>H0 H. \<exists>name. py_getitem run ''name'' = Inr name \<and> stamped H0 rid name H \<and>
                   tagged H rid name)
                (elements hosts0) hosts)
           runs hostss"
    and d: "list_all2
           (\<lambda>H d. \<exists>rid hid name doc. tagged H rid name \<and> py_getitem H ''id'' = Inr hid \<and>
              host_detail lib s srv rid hid = Inr doc \<and> stamped doc rid name d \<and> tagged d rid name)
           (concat hostss) details"
    and h': "list_all2
           (\<lambda>R hosts. \<exists>rid run hosts0. py_getitem R ''id'' = Inr rid \<and>
              run_detail lib s srv rid = Inr run \<and>
              py_getitem run ''deploymentRunHosts'' = Inr hosts0 \<and>
              list_all2
                (\<lambda>H0 H. \<exists>name. py_getitem run ''name'' = Inr name \<and> stamped H0 rid name H \<and>
                   tagged H rid name)
                (elements hosts0) hosts)
           runs hostss'"
    and d': "list_all2
           (\<lambda>H d. \<exists>rid hid name doc. tagged H rid name \<and> py_getitem H ''id'' = Inr hid \<and>
              host_detail lib s srv rid hid = Inr doc \<and> stamped doc rid name d \<and> tagged d rid name)
           (concat hostss') details'"
  shows "hostss = hostss' \<and> details = details'"
proof -
  have hs: "hostss = hostss'"
  proof (rule list_all2_right_unique [OF h h'])
    fix R hosts hosts'
    assume "\<exists>rid run hosts0. py_getitem R ''id'' = Inr rid \<and>
              run_detail lib s srv rid = Inr run \<and>
              py_getitem run ''deploymentRunHosts'' = Inr hosts0 \<and>
              list_all2
                (\<lambda>H0 H. \<exists>name. py_getitem run ''name'' = Inr name \<and> stamped H0 rid name H \<and>
                   tagged H rid name)
                (elements hosts0) hosts"
    then obtain rid run hosts0 where a: "py_getitem R ''id'' = Inr rid"
      "run_detail lib s srv rid = Inr run" "py_getitem run ''deploymentRunHosts'' = Inr hosts0"
      and l: "list_all2
                (\<lambda>H0 H. \<exists>name. py_getitem run ''name'' = Inr name \<and> stamped H0 rid name H \<and>
                   tagged H rid name)
                (elements hosts0) hosts" by blast
    assume "\<exists>rid run hosts0. py_getitem R ''id'' = Inr rid \<and>
              run_detail lib s srv rid = Inr run \<and>
              py_getitem run ''deploymentRunHosts'' = Inr hosts0 \<and>
              list_all2
                (\<lambda>H0 H. \<exists>name. py_getitem run ''name'' = Inr name \<and> stamped H0 rid name H \<and>
                   tagged H rid name)
                (elements hosts0) hosts'"
    then obtain rid' run' hosts0' where a': "py_getitem R ''id'' = Inr rid'"
      "run_detail lib s srv rid' = Inr run'" "py_getitem run' ''deploymentRunHosts'' = Inr hosts0'"
      and l0: "list_all2
                (\<lambda>H0 H. \<exists>name. py_getitem run' ''name'' = Inr name \<and> stamped H0 rid' name H \<and>
                   tagged H rid' name)
                (elements hosts0') hosts'" by blast
    have e1: "rid' = rid" using a(1) a'(1) by simp
    have e2: "run' = run" using a(2) a'(2) e1 by simp
    have e3: "hosts0' = hosts0" using a(3) a'(3) e2 by simp
    note l' = l0 [unfolded e1 e2 e3]
    show "hosts = hosts'"
    proof (rule list_all2_right_unique [OF l l'])
      fix H0 x y
      assume "\<exists>name. py_getitem run ''name'' = Inr name \<and> stamped H0 rid name x \<and> tagged x rid name"
        and "\<exists>name. py_getitem run ''name'' = Inr name \<and> stamped H0 rid name y \<and> tagged y rid name"
      then obtain n m where n: "py_getitem run ''name'' = Inr n" "stamped H0 rid n x"
        and m: "py_getitem run ''name'' = Inr m" "stamped H0 rid m y" by blast
      have "m = n" using n(1) m(1) by simp
      then show "x = y" using n(2) m(2) by (simp add: stamped_unique)
    qed
  qed
  have "details = details'"
  proof (rule list_all2_right_unique [OF d d' [folded hs]])
    fix H x y
    assume "\<exists>rid hid name doc. tagged H rid name \<and> py_getitem H ''id'' = Inr hid \<and>
              host_detail lib s srv rid hid = Inr doc \<and> stamped doc rid name x \<and> tagged x rid name"
    then obtain rid hid name doc where x: "tagged H rid name" "py_getitem H ''id'' = Inr hid"
      "host_detail lib s srv rid hid = Inr doc" "stamped doc rid name x" by blast
    assume "\<exists>rid hid name doc. tagged H rid name \<and> py_getitem H ''id'' = Inr hid \<and>
              host_detail lib s srv rid hid = Inr doc \<and> stamped doc rid name y \<and> tagged y rid name"
    then obtain rid' hid' name' doc' where y: "tagged H rid' name'" "py_getitem H ''id'' = Inr hid'"
      "host_detail lib s srv rid' hid' = Inr doc'" "stamped doc' rid' name' y" by blast
    have e: "rid' = rid" "name' = name" using tagged_unique [OF x(1) y(1)] by simp_all
    have e2: "hid' = hid" using x(2) y(2) by simp
    have e3: "doc' = doc" using x(3) y(3) e e2 by simp
    show "x = y" using x(4) y(4) unfolding e e2 e3 by (rule stamped_unique)
  qed
  then show ?thesis using hs by simp
qed

section \<open>Properties of the fetch orchestrator\<close>

subsection \<open>Runs that are not reserved\<close>

lemma submit_runs_skips_non_reserved:
  assumes "py_getitem dr ''fapStatus'' = Inr status" and "status \<noteq> PyStr ''RESERVED''"
  shows "submit_runs (xs @ dr # ys) = submit_runs (xs @ ys)"
  using assms by (induction xs) (simp_all split: sum.splits prod.splits)

lemma submit_runs_only_reserved:
  "submit_runs runs = (ids, err) \<Longrightarrow>
   list_all2 (\<lambda>R rid. py_getitem R ''id'' = Inr rid) (take (length ids) (filter reserved runs)) ids"
proof (induction runs arbitrary: ids err)
  case Nil
  then show ?case by simp
next
  case (Cons R runs)
  show ?case
  proof (cases "py_getitem R ''fapStatus''")
    case (Inl e)
    then show ?thesis using Cons.prems by simp
  next
    case (Inr status)
    show ?thesis
    proof (cases "status = PyStr ''RESERVED''")
      case True
      show ?thesis
      proof (cases "py_getitem R ''id''")
        case (Inl e)
        then show ?thesis using Cons.prems Inr True by simp
      next
        case rid: (Inr rid)
        obtain ids' err' where rest: "submit_runs runs = (ids', err')"
          by (cases "submit_runs runs")
        then have ids: "ids = rid # ids'" using Cons.prems Inr True rid by simp
        show ?thesis
          using Cons.IH [OF rest] rid ids Inr True by (simp add: reserved_def)
      qed
    next
      case False
      then show ?thesis
        using Cons.prems Cons.IH [of ids err] Inr by (simp add: reserved_def)
    qed
  qed
qed

text \<open>
  Claim C10. A run of the listing whose \<open>fapStatus\<close> is not the text \<^verbatim>\<open>RESERVED\<close> contributes
  nothing: with or without it in the listing, the same calls of \<^verbatim>\<open>get_dr_hosts\<close> are
  submitted, and the two stages return the same hosts (or raise the same exception) with
  the same GET requests, so \<^verbatim>\<open>_get_hosts\<close> returns what it would return for the listing
  without that run. In every case, also when the loop over the listing is ended by an
  exception, the calls submitted are for the ids of reserved runs, in the order of the
  listing.
\<close>

theorem non_reserved_runs_contribute_nothing:
  "(py_getitem dr ''fapStatus'' = Inr status \<and> status \<noteq> PyStr ''RESERVED'' \<longrightarrow>
      submit_runs (xs @ dr # ys) = submit_runs (xs @ ys) \<and>
      collect_hosts lib client srv order1 order2 (xs @ dr # ys) =
        collect_hosts lib client srv order1 order2 (xs @ ys) \<and>
      (get_drs lib (Session url creds) srv = (Inr drs, tr0) \<and> py_iter drs = Inr (xs @ dr # ys) \<longrightarrow>
         get_hosts lib url creds srv order1 order2 =
           (case collect_hosts lib (Session url creds) srv order1 order2 (xs @ ys) of
              (res, tr) \<Rightarrow> (res, tr0 @ tr)))) \<and>
   (submit_runs runs = (ids, err) \<longrightarrow>
      list_all2 (\<lambda>R rid. py_getitem R ''id'' = Inr rid) (take (length ids) (filter reserved runs)) ids)"
proof (intro conjI impI)
  assume a: "py_getitem dr ''fapStatus'' = Inr status \<and> status \<noteq> PyStr ''RESERVED''"
  then show s: "submit_runs (xs @ dr # ys) = submit_runs (xs @ ys)"
    by (simp add: submit_runs_skips_non_reserved)
  then have "fetch_run_hosts lib c srv order1 (xs @ dr # ys) = fetch_run_hosts lib c srv order1 (xs @ ys)"
    for c
    by (simp add: fetch_run_hosts_def)
  then show c: "collect_hosts lib c srv order1 order2 (xs @ dr # ys) =
        collect_hosts lib c srv order1 order2 (xs @ ys)" for c
    by (simp add: collect_hosts_def)
  assume "get_drs lib (Session url creds) srv = (Inr drs, tr0) \<and> py_iter drs = Inr (xs @ dr # ys)"
  then show "get_hosts lib url creds srv order1 order2 =
           (case collect_hosts lib (Session url creds) srv order1 order2 (xs @ ys) of
              (res, tr) \<Rightarrow> (res, tr0 @ tr))"
    by (simp add: get_hosts_def c)
next
  assume "submit_runs runs = (ids, err)"
  then show "list_all2 (\<lambda>R rid. py_getitem R ''id'' = Inr rid)
     (take (length ids) (filter reserved runs)) ids"
    by (rule submit_runs_only_reserved)
qed

theorem non_reserved_runs_contribute_nothing_witness:
  "py_getitem (example_run 3 ''gamma'' ''RELEASED'') ''fapStatus'' = Inr (PyStr ''RELEASED'') \<and>
   PyStr ''RELEASED'' \<noteq> PyStr ''RESERVED'' \<and>
   fst (get_drs example_lib (Session ''https://api.example/rest'' example_credentials) example_server) =
     Inr (PyList ([example_run 1 ''alpha'' ''RESERVED'', example_run 2 ''beta'' ''RESERVED'']
                    @ example_run 3 ''gamma'' ''RELEASED'' # [])) \<and>
   submit_runs ([example_run 1 ''alpha'' ''RESERVED'', example_run 2 ''beta'' ''RESERVED'']
                  @ example_run 3 ''gamma'' ''RELEASED'' # []) = ([PyInt 1, PyInt 2], None) \<and>
   submit_runs ([example_run 1 ''alpha'' ''RESERVED'', example_run 2 ''beta'' ''RESERVED''] @ []) =
     ([PyInt 1, PyInt 2], None) \<and>
   collect_hosts example_lib example_session example_server [1, 0] [2, 1, 0]
       ([example_run 1 ''alpha'' ''RESERVED'', example_run 2 ''beta'' ''RESERVED'']
          @ example_run 3 ''gamma'' ''RELEASED'' # []) =
     collect_hosts example_lib example_session example_server [1, 0] [2, 1, 0]
       ([example_run 1 ''alpha'' ''RESERVED'', example_run 2 ''beta'' ''RESERVED''] @ []) \<and>
   list_all2 (\<lambda>R rid. py_getitem R ''id'' = Inr rid)
     (take (length [PyInt 1, PyInt 2])
        (filter reserved ([example_run 1 ''alpha'' ''RESERVED'', example_run 2 ''beta'' ''RESERVED'']
                            @ example_run 3 ''gamma'' ''RELEASED'' # [])))
     [PyInt 1, PyInt 2]"
proof -
  let ?xs = "[example_run 1 ''alpha'' ''RESERVED'', example_run 2 ''beta'' ''RESERVED'']"
  let ?dr = "example_run 3 ''gamma'' ''RELEASED''"
  have h1: "py_getitem ?dr ''fapStatus'' = Inr (PyStr ''RELEASED'') \<and> PyStr ''RELEASED'' \<noteq> PyStr ''RESERVED''"
    by (simp add: example_run_def)
  have h2: "submit_runs (?xs @ ?dr # []) = ([PyInt 1, PyInt 2], None)"
    by code_simp
  have h3: "fst (get_drs example_lib (Session ''https://api.example/rest'' example_credentials) example_server) =
     Inr (PyList (?xs @ ?dr # []))"
    by code_simp
  note T = non_reserved_runs_contribute_nothing
    [where dr = ?dr and status = "PyStr ''RELEASED''" and xs = ?xs and ys = "[]"
       and lib = example_lib and client = example_session and srv = example_server
       and ?order1.0 = "[1, 0]" and ?order2.0 = "[2, 1, 0]"
       and runs = "?xs @ ?dr # []" and ids = "[PyInt 1, PyInt 2]" and err = None]
  from T h1 have c1: "submit_runs (?xs @ ?dr # []) = submit_runs (?xs @ [])"
    and c2: "collect_hosts example_lib example_session example_server [1, 0] [2, 1, 0] (?xs @ ?dr # []) =
      collect_hosts example_lib example_session example_server [1, 0] [2, 1, 0] (?xs @ [])"
    by blast+
  from T h2 have c3: "list_all2 (\<lambda>R rid. py_getitem R ''id'' = Inr rid)
     (take (length [PyInt 1, PyInt 2]) (filter reserved (?xs @ ?dr # []))) [PyInt 1, PyInt 2]"
    by blast
  from c1 h2 have c4: "submit_runs (?xs @ []) = ([PyInt 1, PyInt 2], None)"
    by simp
  show ?thesis
    using h1 h2 h3 c2 c3 c4 by (intro conjI) (simp_all only: simp_thms)
qed

subsection \<open>Sorting by id\<close>

text \<open>
  Where \<^verbatim>\<open><\<close> on the keys is a linear order read off by a function \<open>g\<close>, the sort of the
  model returns what the library's stable insertion sort \<open>sort_key\<close> returns.
\<close>

lemma insort_pair_linorder:
  fixes g :: "pyval \<Rightarrow> 'k::linorder"
  assumes "\<And>y. y \<in> set ys \<Longrightarrow> py_lt lib (fst y) (fst x) = Inr (g (fst y) < g (fst x))"
  shows "insort_pair lib x ys = Inr (insort_key (\<lambda>p. g (fst p)) x ys)"
  using assms by (induction ys) (auto simp: not_less)

lemma sort_pairs_linorder:
  fixes g :: "pyval \<Rightarrow> 'k::linorder"
  assumes "\<And>x y. x \<in> set ps \<Longrightarrow> y \<in> set ps \<Longrightarrow> py_lt lib (fst y) (fst x) = Inr (g (fst y) < g (fst x))"
  shows "sort_pairs lib ps = Inr (sort_key (\<lambda>p. g (fst p)) ps)"
  using assms
proof (induction ps)
  case Nil
  then show ?case by simp
next
  case (Cons p ps)
  have "sort_pairs lib ps = Inr (sort_key (\<lambda>p. g (fst p)) ps)"
    using Cons.prems by (intro Cons.IH) auto
  moreover have "insort_pair lib p (sort_key (\<lambda>p. g (fst p)) ps) =
      Inr (insort_key (\<lambda>p. g (fst p)) p (sort_key (\<lambda>p. g (fst p)) ps))"
    using Cons.prems by (intro insort_pair_linorder) auto
  ultimately show ?case by simp
qed

lemma insort_key_map:
  "insort_key f (h x) (map h ys) = map h (insort_key (\<lambda>y. f (h y)) x ys)"
  by (induction ys) simp_all

lemma sort_key_map: "sort_key f (map h xs) = map h (sort_key (\<lambda>y. f (h y)) xs)"
  by (induction xs) (simp_all add: insort_key_map)

lemma map_err_getitem_id:
  assumes "\<And>h. h \<in> set hosts \<Longrightarrow> \<exists>k. py_getitem h ''id'' = Inr k"
  shows "map_err (\<lambda>x. py_getitem x ''id'') hosts = Inr (map id_of hosts)"
  using assms
proof (induction hosts)
  case Nil
  then show ?case by simp
next
  case (Cons h hosts)
  obtain k where "py_getitem h ''id'' = Inr k" using Cons.prems [of h] by auto
  moreover have "map_err (\<lambda>x. py_getitem x ''id'') hosts = Inr (map id_of hosts)"
    using Cons.prems by (intro Cons.IH) auto
  ultimately show ?case by (simp add: id_of_def)
qed

lemma zip_map_self: "zip (map f xs) xs = map (\<lambda>x. (f x, x)) xs"
  by (induction xs) simp_all

lemma sorted_by_id_linorder:
  fixes g :: "pyval \<Rightarrow> 'k::linorder"
  assumes ids: "\<And>h. h \<in> set hosts \<Longrightarrow> \<exists>k. py_getitem h ''id'' = Inr k"
    and lt: "\<And>a b. a \<in> set hosts \<Longrightarrow> b \<in> set hosts \<Longrightarrow>
               py_lt lib (id_of b) (id_of a) = Inr (g (id_of b) < g (id_of a))"
  shows "sorted_by_id lib hosts = Inr (sort_key (\<lambda>h. g (id_of h)) hosts)"
proof -
  have "sort_pairs lib (map (\<lambda>h. (id_of h, h)) hosts) =
      Inr (sort_key (\<lambda>p. g (fst p)) (map (\<lambda>h. (id_of h, h)) hosts))"
    using lt by (intro sort_pairs_linorder) auto
  then show ?thesis
    by (simp add: sorted_by_id_def map_err_getitem_id [OF ids] zip_map_self sort_key_map comp_def)
qed

lemma py_lt_numbers:
  "py_number a \<noteq> None \<Longrightarrow> py_number b \<noteq> None \<Longrightarrow>
   py_lt lib a b = Inr (number_key a < number_key b)"
  by (auto simp: py_lt_def number_key_def)

lemma py_lt_texts:
  "is_str a \<Longrightarrow> is_str b \<Longrightarrow> py_lt lib a b = Inr (text_key a < text_key b)"
  by (cases a; cases b) (simp_all add: py_lt_def text_key_def)

lemma sorted_by_id_numbers:
  assumes "\<And>h. h \<in> set hosts \<Longrightarrow> has_number_id h"
  shows "sorted_by_id lib hosts = Inr (sort_key (\<lambda>h. number_key (id_of h)) hosts)"
proof (rule sorted_by_id_linorder)
  fix h assume "h \<in> set hosts"
  then show "\<exists>k. py_getitem h ''id'' = Inr k"
    using assms [of h] by (auto simp: has_number_id_def split: sum.splits)
next
  fix a b assume "a \<in> set hosts" "b \<in> set hosts"
  then have "py_number (id_of a) \<noteq> None" "py_number (id_of b) \<noteq> None"
    using assms [of a] assms [of b] by (auto simp: has_number_id_def id_of_def split: sum.splits)
  then show "py_lt lib (id_of b) (id_of a) = Inr (number_key (id_of b) < number_key (id_of a))"
    by (simp add: py_lt_numbers)
qed

lemma sorted_by_id_texts:
  assumes "\<And>h. h \<in> set hosts \<Longrightarrow> has_text_id h"
  shows "sorted_by_id lib hosts = Inr (sort_key (\<lambda>h. text_key (id_of h)) hosts)"
proof (rule sorted_by_id_linorder)
  fix h assume "h \<in> set hosts"
  then show "\<exists>k. py_getitem h ''id'' = Inr k"
    using assms [of h] by (auto simp: has_text_id_def split: sum.splits)
next
  fix a b assume "a \<in> set hosts" "b \<in> set hosts"
  then have "is_str (id_of a)" "is_str (id_of b)"
    using assms [of a] assms [of b] by (auto simp: has_text_id_def id_of_def split: sum.splits)
  then show "py_lt lib (id_of b) (id_of a) = Inr (text_key (id_of b) < text_key (id_of a))"
    by (simp add: py_lt_texts)
qed

lemma insort_pair_mset: "insort_pair lib x ys = Inr zs \<Longrightarrow> mset zs = add_mset x (mset ys)"
proof (induction ys arbitrary: zs)
  case Nil
  then show ?case by auto
next
  case (Cons y ys)
  then show ?case
    by (auto simp: bind_err_eq_Inr split: if_splits)
qed

lemma sort_pairs_mset: "sort_pairs lib ps = Inr qs \<Longrightarrow> mset qs = mset ps"
proof (induction ps arbitrary: qs)
  case Nil
  then show ?case by simp
next
  case (Cons p ps)
  then show ?case
    by (auto simp: bind_err_eq_Inr dest: insort_pair_mset)
qed

lemma sorted_by_id_mset:
  assumes "sorted_by_id lib hosts = Inr hosts'"
  shows "mset hosts' = mset hosts"
proof -
  from assms obtain keys ps where k: "map_err (\<lambda>x. py_getitem x ''id'') hosts = Inr keys"
    and s: "sort_pairs lib (zip keys hosts) = Inr ps" and h: "hosts' = map snd ps"
    by (auto simp: sorted_by_id_def bind_err_eq_Inr)
  have len: "length keys = length hosts"
    using k by (auto simp: map_err_eq_Inr dest: list_all2_lengthD)
  have "mset hosts' = image_mset snd (mset (zip keys hosts))"
    using sort_pairs_mset [OF s] h by (metis mset_map)
  also have "\<dots> = mset (map snd (zip keys hosts))" by simp
  also have "\<dots> = mset hosts" using len by simp
  finally show ?thesis .
qed

subsection \<open>Schedules\<close>

text \<open>
  A permutation of the task numbers is its own completion order, so the schedules of
  the model cover every order in which the tasks of a stage can complete.
\<close>

lemma completion_order_permutation:
  assumes "mset order = mset [0..<n]"
  shows "completion_order order n = order"
proof -
  have s: "set order = {0..<n}" using assms by (metis mset_eq_setD set_upt)
  have d: "distinct order" using assms by (metis distinct_upt mset_eq_imp_distinct_iff)
  have "filter (\<lambda>i. i < n) order = order" using s by (auto intro: filter_True)
  moreover have "filter (\<lambda>i. i \<notin> set order) [0..<n] = []" using s by (auto simp: filter_empty_conv)
  ultimately show ?thesis using d by (simp add: completion_order_def)
qed

lemma fst_fetch_run_hosts:
  "fst (fetch_run_hosts lib s srv order runs) = fst (fetch_run_hosts lib s srv order' runs)"
  by (simp add: fetch_run_hosts_def run_pool_def split: prod.splits)

lemma fst_fetch_host_details:
  "fst (fetch_host_details lib s srv order stubs) = fst (fetch_host_details lib s srv order' stubs)"
  by (simp add: fetch_host_details_def run_pool_def split: prod.splits)

lemma fst_collect_hosts:
  "fst (collect_hosts lib s srv order1 order2 runs) = fst (collect_hosts lib s srv order1' order2' runs)"
proof -
  have "fst (collect_hosts lib s srv o1 o2 runs) =
      (case fst (fetch_run_hosts lib s srv o1 runs) of
         Inl e \<Rightarrow> Inl e
       | Inr dr_hosts \<Rightarrow> fst (fetch_host_details lib s srv o2 dr_hosts))" for o1 o2
    by (auto simp: collect_hosts_def split: prod.splits sum.splits)
  then show ?thesis
    using fst_fetch_run_hosts [of lib s srv order1 runs order1']
      fst_fetch_host_details [of lib s srv order2 _ order2']
    by (simp split: sum.splits)
qed

lemma fst_get_hosts:
  "fst (get_hosts lib url creds srv order1 order2) = fst (get_hosts lib url creds srv order1' order2')"
proof -
  have "fst (get_hosts lib url creds srv o1 o2) =
      (case fst (get_drs lib (Session url creds) srv) of
         Inl e \<Rightarrow> Inl e
       | Inr drs \<Rightarrow>
           (case py_iter drs of
              Inl e \<Rightarrow> Inl e
            | Inr runs \<Rightarrow> fst (collect_hosts lib (Session url creds) srv o1 o2 runs)))" for o1 o2
    by (auto simp: get_hosts_def Let_def split: prod.splits sum.splits)
  then show ?thesis
    using fst_collect_hosts [of lib "Session url creds" srv order1 order2 _ order1' order2']
    by (simp split: sum.splits)
qed

lemma fst_query:
  "fst (query lib url creds srv order1 order2) =
     (case fst (get_hosts lib url creds srv order1 order2) of
        Inl e \<Rightarrow> Inl e
      | Inr hosts \<Rightarrow>
          bind_err (sorted_by_id lib hosts) (\<lambda>hosts'. Inr (PyDict [(''cons3rt'', PyList hosts')])))"
  by (auto simp: query_def split: prod.splits sum.splits)

text \<open>
  Claim C5. What \<^verbatim>\<open>_query\<close> returns or raises is the same for every pair of schedules of
  the two stages. When it returns, the value is \<^verbatim>\<open>{'cons3rt': hosts}\<close> with \<open>hosts\<close> a
  rearrangement of the list that \<^verbatim>\<open>_get_hosts\<close> collected. When the ids of the collected
  records are numbers (or when they are all texts), \<open>hosts\<close> is that list sorted
  ascending by \<open>id\<close>, records with equal ids keeping their order of collection.
\<close>

theorem query_sorted_and_independent_of_schedule:
  "fst (query lib url creds srv order1 order2) = fst (query lib url creds srv order1' order2') \<and>
   (fst (query lib url creds srv order1 order2) = Inr result \<longrightarrow>
      (\<exists>collected hosts. fst (get_hosts lib url creds srv order1 order2) = Inr collected \<and>
         result = PyDict [(''cons3rt'', PyList hosts)] \<and> mset hosts = mset collected)) \<and>
   (fst (get_hosts lib url creds srv order1 order2) = Inr collected \<and>
    (\<forall>h \<in> set collected. has_number_id h) \<longrightarrow>
      fst (query lib url creds srv order1 order2) =
        Inr (PyDict [(''cons3rt'', PyList (sort_key (\<lambda>h. number_key (id_of h)) collected))]) \<and>
      sorted (map (\<lambda>h. number_key (id_of h)) (sort_key (\<lambda>h. number_key (id_of h)) collected)) \<and>
      (\<forall>k. filter (\<lambda>h. number_key (id_of h) = k) (sort_key (\<lambda>h. number_key (id_of h)) collected)
             = filter (\<lambda>h. number_key (id_of h) = k) collected)) \<and>
   (fst (get_hosts lib url creds srv order1 order2) = Inr collected \<and>
    (\<forall>h \<in> set collected. has_text_id h) \<longrightarrow>
      fst (query lib url creds srv order1 order2) =
        Inr (PyDict [(''cons3rt'', PyList (sort_key (\<lambda>h. text_key (id_of h)) collected))]) \<and>
      sorted (map (\<lambda>h. text_key (id_of h)) (sort_key (\<lambda>h. text_key (id_of h)) collected)) \<and>
      (\<forall>k. filter (\<lambda>h. text_key (id_of h) = k) (sort_key (\<lambda>h. text_key (id_of h)) collected)
             = filter (\<lambda>h. text_key (id_of h) = k) collected))"
proof (intro conjI impI)
  show "fst (query lib url creds srv order1 order2) = fst (query lib url creds srv order1' order2')"
    using fst_get_hosts [of lib url creds srv order1 order2 order1' order2']
    by (simp add: fst_query)
next
  assume "fst (query lib url creds srv order1 order2) = Inr result"
  then obtain collected hosts where
    c: "fst (get_hosts lib url creds srv order1 order2) = Inr collected"
    and s: "sorted_by_id lib collected = Inr hosts"
    and r: "result = PyDict [(''cons3rt'', PyList hosts)]"
    by (auto simp: fst_query bind_err_eq_Inr split: sum.splits)
  then show "\<exists>collected hosts. fst (get_hosts lib url creds srv order1 order2) = Inr collected \<and>
         result = PyDict [(''cons3rt'', PyList hosts)] \<and> mset hosts = mset collected"
    using sorted_by_id_mset [OF s] by blast
next
  assume a: "fst (get_hosts lib url creds srv order1 order2) = Inr collected \<and>
    (\<forall>h \<in> set collected. has_number_id h)"
  then have "sorted_by_id lib collected = Inr (sort_key (\<lambda>h. number_key (id_of h)) collected)"
    by (intro sorted_by_id_numbers) simp
  then show "fst (query lib url creds srv order1 order2) =
        Inr (PyDict [(''cons3rt'', PyList (sort_key (\<lambda>h. number_key (id_of h)) collected))])"
    using a by (simp add: fst_query)
next
  show "sorted (map (\<lambda>h. number_key (id_of h)) (sort_key (\<lambda>h. number_key (id_of h)) collected))"
    by (rule sorted_sort_key)
next
  show "\<forall>k. filter (\<lambda>h. number_key (id_of h) = k) (sort_key (\<lambda>h. number_key (id_of h)) collected)
             = filter (\<lambda>h. number_key (id_of h) = k) collected"
    by (simp add: sort_key_stable)
next
  assume a: "fst (get_hosts lib url creds srv order1 order2) = Inr collected \<and>
    (\<forall>h \<in> set collected. has_text_id h)"
  then have "sorted_by_id lib collected = Inr (sort_key (\<lambda>h. text_key (id_of h)) collected)"
    by (intro sorted_by_id_texts) simp
  then show "fst (query lib url creds srv order1 order2) =
        Inr (PyDict [(''cons3rt'', PyList (sort_key (\<lambda>h. text_key (id_of h)) collected))])"
    using a by (simp add: fst_query)
next
  show "sorted (map (\<lambda>h. text_key (id_of h)) (sort_key (\<lambda>h. text_key (id_of h)) collected))"
    by (rule sorted_sort_key)
next
  show "\<forall>k. filter (\<lambda>h. text_key (id_of h) = k) (sort_key (\<lambda>h. text_key (id_of h)) collected)
             = filter (\<lambda>h. text_key (id_of h) = k) collected"
    by (simp add: sort_key_stable)
qed

theorem query_sorted_and_independent_of_schedule_witness:
  "fst (query example_lib ''https://api.example/rest'' example_credentials example_server [1, 0] [2, 1, 0]) =
     fst (query example_lib ''https://api.example/rest'' example_credentials example_server [] []) \<and>
   snd (query example_lib ''https://api.example/rest'' example_credentials example_server [1, 0] [2, 1, 0]) \<noteq>
     snd (query example_lib ''https://api.example/rest'' example_credentials example_server [] []) \<and>
   fst (get_hosts example_lib ''https://api.example/rest'' example_credentials example_server [1, 0] [2, 1, 0])
     = Inr example_details \<and>
   list_all has_number_id example_details \<and>
   fst (query example_lib ''https://api.example/rest'' example_credentials example_server [1, 0] [2, 1, 0]) =
     Inr (PyDict [(''cons3rt'',
       PyList [example_detail 10 '''' 2 ''beta'', example_detail 11 ''db'' 1 ''alpha'',
               example_detail 12 ''web'' 1 ''alpha''])])"
proof -
  let ?q = "query example_lib ''https://api.example/rest'' example_credentials example_server"
  have g: "fst (get_hosts example_lib ''https://api.example/rest'' example_credentials example_server
                  [1, 0] [2, 1, 0]) = Inr example_details"
    by code_simp
  have n: "list_all has_number_id example_details"
    by code_simp
  then have n': "\<forall>h \<in> set example_details. has_number_id h"
    by (simp add: list_all_iff)
  have tr: "snd (?q [1, 0] [2, 1, 0]) \<noteq> snd (?q [] [])"
    by code_simp
  have srt: "sort_key (\<lambda>h. number_key (id_of h)) example_details =
      [example_detail 10 '''' 2 ''beta'', example_detail 11 ''db'' 1 ''alpha'',
       example_detail 12 ''web'' 1 ''alpha'']"
    by code_simp
  note T = query_sorted_and_independent_of_schedule
    [where lib = example_lib and url = "''https://api.example/rest''" and creds = example_credentials
       and srv = example_server and ?order1.0 = "[1, 0]" and ?order2.0 = "[2, 1, 0]"
       and ?order1' = "[]" and ?order2' = "[]" and collected = example_details]
  from T have c1: "fst (?q [1, 0] [2, 1, 0]) = fst (?q [] [])"
    by blast
  from T g n' have c2: "fst (?q [1, 0] [2, 1, 0]) =
      Inr (PyDict [(''cons3rt'', PyList (sort_key (\<lambda>h. number_key (id_of h)) example_details))])"
    by blast
  show ?thesis
    using c1 tr g n c2 unfolding srt by (intro conjI)
qed

section \<open>Properties of inventory population\<close>

lemma add_hosts_calls:
  "set (snd (add_hosts c2s hosts g calls)) \<subseteq>
     set calls \<union> {c. py_truthy (call_hostname c) \<and>
                      (\<exists>h \<in> set hosts. py_getitem h ''systemRole'' = Inr (call_hostname c))}"
proof (induction hosts arbitrary: calls)
  case Nil
  then show ?case by simp
next
  case (Cons host hosts)
  show ?case
  proof (cases "py_getitem host ''systemRole''")
    case (Inl e)
    then show ?thesis by simp
  next
    case (Inr hostname)
    show ?thesis
    proof (cases "py_truthy hostname")
      case False
      then show ?thesis using Inr Cons.IH [of calls] by (auto simp: Let_def)
    next
      case True
      show ?thesis
      proof (cases "py_items (c2s host)")
        case (Inl e)
        then show ?thesis using Inr True by (auto simp: Let_def)
      next
        case items: (Inr items)
        let ?new = "[AddHost hostname g]
                       @ map (\<lambda>(hostvar, hostval). SetVariable hostname hostvar hostval) items
                       @ [SetCompositeVars (c2s host) hostname,
                          AddHostToComposedGroups (c2s host) hostname,
                          AddHostToKeyedGroups (c2s host) hostname]"
        have new: "\<forall>c \<in> set ?new. call_hostname c = hostname" by auto
        have step: "add_hosts c2s (host # hosts) g calls = add_hosts c2s hosts g (calls @ ?new)"
          using Inr True items by (simp add: Let_def)
        have "set (snd (add_hosts c2s hosts g (calls @ ?new))) \<subseteq>
            set (calls @ ?new) \<union> {c. py_truthy (call_hostname c) \<and>
                      (\<exists>h \<in> set hosts. py_getitem h ''systemRole'' = Inr (call_hostname c))}"
          by (rule Cons.IH)
        moreover have "set ?new \<subseteq> {c. py_truthy (call_hostname c) \<and>
                      (\<exists>h \<in> set (host # hosts). py_getitem h ''systemRole'' = Inr (call_hostname c))}"
          using new True Inr by auto
        ultimately show ?thesis unfolding step by auto
      qed
    qed
  qed
qed

text \<open>
  Claim C7, as amended. A host whose \<open>systemRole\<close> is present and empty (\<^verbatim>\<open>''\<close>, \<^verbatim>\<open>None\<close>
  or any other false value) is skipped entirely: \<^verbatim>\<open>_add_hosts\<close> goes on as if the host were
  not in the list. A host whose \<open>systemRole\<close> key is absent makes \<^verbatim>\<open>_add_hosts\<close> raise
  \<^verbatim>\<open>KeyError\<close> at that host, before any call to the inventory is made for it. In both
  cases nothing is registered for the host: every call the inventory receives names a
  host by a role identifier that is not empty and is the \<open>systemRole\<close> of a host of
  the list.
\<close>

theorem hosts_without_role_are_not_registered:
  "(py_getitem host ''systemRole'' = Inr hostname \<and> \<not> py_truthy hostname \<longrightarrow>
      add_hosts c2s (host # hosts) g calls = add_hosts c2s hosts g calls) \<and>
   (py_getitem host ''systemRole'' = Inl e \<longrightarrow>
      add_hosts c2s (host # hosts) g calls = (Some e, calls)) \<and>
   (\<forall>c \<in> set (snd (add_hosts c2s hosts g [])).
      py_truthy (call_hostname c) \<and>
      (\<exists>h \<in> set hosts. py_getitem h ''systemRole'' = Inr (call_hostname c)))"
proof (intro conjI impI ballI)
  assume "py_getitem host ''systemRole'' = Inr hostname \<and> \<not> py_truthy hostname"
  then show "add_hosts c2s (host # hosts) g calls = add_hosts c2s hosts g calls"
    by (simp add: Let_def)
next
  assume "py_getitem host ''systemRole'' = Inl e"
  then show "add_hosts c2s (host # hosts) g calls = (Some e, calls)"
    by simp
next
  fix c assume c: "c \<in> set (snd (add_hosts c2s hosts g []))"
  then show "py_truthy (call_hostname c)"
    using add_hosts_calls [of c2s hosts g "[]"] by auto
  from c show "\<exists>h \<in> set hosts. py_getitem h ''systemRole'' = Inr (call_hostname c)"
    using add_hosts_calls [of c2s hosts g "[]"] by auto
qed

theorem hosts_without_role_are_not_registered_witness:
  "py_getitem (example_detail 10 '''' 2 ''beta'') ''systemRole'' = Inr (PyStr '''') \<and>
   \<not> py_truthy (PyStr '''') \<and>
   add_hosts example_snake (example_detail 10 '''' 2 ''beta'' # [example_detail 11 ''db'' 1 ''alpha''])
       ''cons3rt'' [] =
     add_hosts example_snake [example_detail 11 ''db'' 1 ''alpha''] ''cons3rt'' [] \<and>
   py_getitem host_without_role ''systemRole'' = Inl (KeyError ''systemRole'') \<and>
   add_hosts example_snake (host_without_role # [example_detail 11 ''db'' 1 ''alpha'']) ''cons3rt'' [] =
     (Some (KeyError ''systemRole''), []) \<and>
   list_all (\<lambda>c. py_truthy (call_hostname c))
     (snd (add_hosts example_snake example_details ''cons3rt'' [])) \<and>
   length (filter (\<lambda>c. case c of AddHost n g \<Rightarrow> True | _ \<Rightarrow> False)
     (snd (add_hosts example_snake example_details ''cons3rt'' []))) = 2"
proof -
  have h1: "py_getitem (example_detail 10 '''' 2 ''beta'') ''systemRole'' = Inr (PyStr '''') \<and>
      \<not> py_truthy (PyStr '''')"
    by (simp add: example_detail_def)
  have h2: "py_getitem host_without_role ''systemRole'' = Inl (KeyError ''systemRole'')"
    by (simp add: host_without_role_def)
  have n: "length (filter (\<lambda>c. case c of AddHost n g \<Rightarrow> True | _ \<Rightarrow> False)
     (snd (add_hosts example_snake example_details ''cons3rt'' []))) = 2"
    by code_simp
  note T1 = hosts_without_role_are_not_registered
    [where host = "example_detail 10 '''' 2 ''beta''" and hostname = "PyStr ''''"
       and ?c2s = example_snake and hosts = "[example_detail 11 ''db'' 1 ''alpha'']"
       and g = "''cons3rt''" and calls = "[]"]
  note T2 = hosts_without_role_are_not_registered
    [where host = host_without_role and e = "KeyError ''systemRole''"
       and ?c2s = example_snake and hosts = "[example_detail 11 ''db'' 1 ''alpha'']"
       and g = "''cons3rt''" and calls = "[]"]
  note T3 = hosts_without_role_are_not_registered
    [where ?c2s = example_snake and hosts = example_details and g = "''cons3rt''"]
  from T1 h1 have c1: "add_hosts example_snake
      (example_detail 10 '''' 2 ''beta'' # [example_detail 11 ''db'' 1 ''alpha'']) ''cons3rt'' [] =
     add_hosts example_snake [example_detail 11 ''db'' 1 ''alpha''] ''cons3rt'' []"
    by blast
  from T2 h2 have c2: "add_hosts example_snake
      (host_without_role # [example_detail 11 ''db'' 1 ''alpha'']) ''cons3rt'' [] =
     (Some (KeyError ''systemRole''), [])"
    by blast
  from T3 have c3: "list_all (\<lambda>c. py_truthy (call_hostname c))
     (snd (add_hosts example_snake example_details ''cons3rt'' []))"
    unfolding list_all_iff by blast
  show ?thesis
    using h1 h2 c1 c2 c3 n by (intro conjI) (simp_all only: simp_thms)
qed

text \<open>
  Claim C7 as stated fails for an absent key: the host is not skipped, the exception
  ends the loop, and the host after it, which has a role, is not registered either.
  Without the first host it would be.
\<close>

theorem add_hosts_missing_role_aborts:
  "add_hosts example_snake [host_without_role, example_detail 11 ''db'' 1 ''alpha''] ''cons3rt'' [] =
     (Some (KeyError ''systemRole''), []) \<and>
   fst (add_hosts example_snake [example_detail 11 ''db'' 1 ''alpha''] ''cons3rt'' []) = None \<and>
   take 1 (snd (add_hosts example_snake [example_detail 11 ''db'' 1 ''alpha''] ''cons3rt'' [])) =
     [AddHost (PyStr ''db'') ''cons3rt'']"
  by code_simp

end
